theory Spec2Isabelle
  imports Main "HOL-Library.Word" "HOL-Library.Multiset"
begin

section \<open>Title tokenizer (\<^verbatim>\<open>get_word_frequency\<close>, streamlit\_app.py lines 109--117)\<close>

text \<open>
  A Python \<^verbatim>\<open>str\<close> is the list of its code points; \<open>str\<close> writes the text of an ASCII
  literal.
\<close>

type_synonym pystr = "nat list"

definition str :: "string \<Rightarrow> pystr" where
  "str s = map of_char s"

text \<open>
  The source uses three character classes. The class \<^verbatim>\<open>[a-zA-Z]\<close> and the white space of
  \<^verbatim>\<open>str.split\<close> are written out. The word characters behind \<^verbatim>\<open>\b\<close> (the class \<^verbatim>\<open>\w\<close>
  of a \<^verbatim>\<open>str\<close> pattern: \<^verbatim>\<open>str.isalnum\<close> or the underscore) and \<^verbatim>\<open>str.lower\<close> follow
  the Unicode database beyond ASCII; that part of the database is a parameter:
  \<open>uni_alnum\<close> is \<^verbatim>\<open>str.isalnum\<close> on the code points from 128 on, \<open>uni_lower\<close>
  is \<^verbatim>\<open>str.lower\<close> on the texts that have such a code point (\<^verbatim>\<open>str.lower\<close> looks at
  the neighbours of some characters, so it is taken on the whole text).
\<close>

record unicode =
  uni_alnum :: "nat \<Rightarrow> bool"
  uni_lower :: "pystr \<Rightarrow> pystr"

text \<open>The class \<^verbatim>\<open>[a-zA-Z]\<close>: the code points 97 to 122 and 65 to 90.\<close>

definition is_alpha :: "nat \<Rightarrow> bool" where
  "is_alpha c = ((97 \<le> c \<and> c \<le> 122) \<or> (65 \<le> c \<and> c \<le> 90))"

text \<open>The class \<^verbatim>\<open>\w\<close>: on ASCII the letters, the digits (48 to 57) and the underscore
  (95).\<close>

definition is_word :: "unicode \<Rightarrow> nat \<Rightarrow> bool" where
  "is_word u c =
     (if c < 128 then is_alpha c \<or> (48 \<le> c \<and> c \<le> 57) \<or> c = 95 else uni_alnum u c)"

text \<open>\<^verbatim>\<open>str.lower\<close>: on an ASCII text the capital letters move up by 32.\<close>

definition py_lower :: "unicode \<Rightarrow> pystr \<Rightarrow> pystr" where
  "py_lower u s =
     (if list_all (\<lambda>c. c < 128) s then map (\<lambda>c. if 65 \<le> c \<and> c \<le> 90 then c + 32 else c) s
      else uni_lower u s)"

text \<open>
  \<^verbatim>\<open>\b\<close> holds between two positions when exactly one side is a word character; the
  outside of the string (\<open>None\<close>) counts as a non-word character.
\<close>

fun opt_word :: "unicode \<Rightarrow> nat option \<Rightarrow> bool" where
  "opt_word u None = False"
| "opt_word u (Some c) = is_word u c"

definition word_boundary :: "unicode \<Rightarrow> nat option \<Rightarrow> nat option \<Rightarrow> bool" where
  "word_boundary u p n = (opt_word u p \<noteq> opt_word u n)"

definition nth_opt :: "'a list \<Rightarrow> nat \<Rightarrow> 'a option" where
  "nth_opt xs i = (if i < length xs then Some (xs ! i) else None)"

text \<open>
  \<^verbatim>\<open>[a-zA-Z]{3,}\b\<close> is greedy: it takes the whole run of letters at the start of
  \<open>s\<close> and gives characters back one at a time, down to three, until \<^verbatim>\<open>\b\<close> holds
  at the end of the match. \<open>backtrack u s k\<close> tries the lengths \<open>k, k - 1, \<dots>, 3\<close>.
\<close>

fun backtrack :: "unicode \<Rightarrow> pystr \<Rightarrow> nat \<Rightarrow> nat option" where
  "backtrack u s k =
     (if k < 3 then None
      else if word_boundary u (nth_opt s (k - 1)) (nth_opt s k) then Some k
      else backtrack u s (k - 1))"

declare backtrack.simps [simp del]

text \<open>One match attempt at the start of \<open>s\<close>, \<open>p\<close> being the character before it.\<close>

definition match_at :: "unicode \<Rightarrow> nat option \<Rightarrow> pystr \<Rightarrow> nat option" where
  "match_at u p s =
     (if word_boundary u p (nth_opt s 0) then backtrack u s (length (takeWhile is_alpha s))
      else None)"

lemma backtrack_bounds: "backtrack u s k = Some j \<Longrightarrow> 3 \<le> j \<and> j \<le> k"
proof (induction u s k rule: backtrack.induct)
  case (1 u s k)
  show ?case
  proof (cases "k < 3")
    case True
    with "1.prems" show ?thesis by (simp add: backtrack.simps [of u s k])
  next
    case False
    show ?thesis
    proof (cases "word_boundary u (nth_opt s (k - 1)) (nth_opt s k)")
      case True
      with False "1.prems" show ?thesis by (simp add: backtrack.simps [of u s k])
    next
      case nb: False
      with False "1.prems" have "backtrack u s (k - 1) = Some j"
        by (simp add: backtrack.simps [of u s k])
      with "1.IH" [OF False nb] have "3 \<le> j \<and> j \<le> k - 1" by simp
      then show ?thesis by arith
    qed
  qed
qed

lemma match_at_bounds: "match_at u p s = Some k \<Longrightarrow> 3 \<le> k \<and> k \<le> length s"
proof -
  assume "match_at u p s = Some k"
  then have "backtrack u s (length (takeWhile is_alpha s)) = Some k"
    by (simp add: match_at_def split: if_splits)
  then have "3 \<le> k \<and> k \<le> length (takeWhile is_alpha s)"
    by (rule backtrack_bounds)
  moreover have "length (takeWhile is_alpha s) \<le> length s"
    by (rule length_takeWhile_le)
  ultimately show ?thesis by simp
qed

text \<open>
  \<^verbatim>\<open>re.findall\<close> scans from left to right: where an attempt matches \<open>k\<close> characters
  they are one result and the scan goes on behind them, where it fails the scan moves one
  character on.
\<close>

function findall_from :: "unicode \<Rightarrow> nat option \<Rightarrow> pystr \<Rightarrow> pystr list" where
  "findall_from u p [] = []"
| "findall_from u p (c # cs) =
     (case match_at u p (c # cs) of
        Some k \<Rightarrow> take k (c # cs) # findall_from u (nth_opt (c # cs) (k - 1)) (drop k (c # cs))
      | None \<Rightarrow> findall_from u (Some c) cs)"
  by pat_completeness auto
termination
proof (relation "measure (\<lambda>(u, p, s). length s)")
  show "wf (measure (\<lambda>(u, p, s). length s))" by simp
next
  fix u :: unicode and p :: "nat option" and c :: nat and cs :: pystr and k :: nat
  assume "match_at u p (c # cs) = Some k"
  then have "3 \<le> k" by (simp add: match_at_bounds)
  then show "((u, nth_opt (c # cs) (k - 1), drop k (c # cs)), (u, p, c # cs))
      \<in> measure (\<lambda>(u, p, s). length s)"
    by simp
next
  fix u :: unicode and p :: "nat option" and c :: nat and cs :: pystr
  show "((u, Some c, cs), (u, p, c # cs)) \<in> measure (\<lambda>(u, p, s). length s)" by simp
qed

definition findall :: "unicode \<Rightarrow> pystr \<Rightarrow> pystr list" where
  "findall u s = findall_from u None s"

definition stop_words :: "pystr list" where
  "stop_words =
     map str
       [''the'', ''and'', ''for'', ''are'', ''with'', ''this'', ''that'', ''from'', ''they'',
        ''been'', ''have'', ''were'', ''said'', ''each'', ''which'', ''their'', ''time'',
        ''will'', ''about'', ''can'', ''may'', ''use'', ''her'', ''him'', ''his'', ''she'',
        ''was'', ''one'', ''our'', ''had'', ''but'', ''not'', ''what'', ''all'', ''any'',
        ''your'', ''how'', ''did'', ''its'']"

text \<open>The body of the loop over the titles: the words one title adds to \<^verbatim>\<open>all_words\<close>.\<close>

definition title_words :: "unicode \<Rightarrow> pystr \<Rightarrow> pystr list" where
  "title_words u title = filter (\<lambda>w. w \<notin> set stop_words) (findall u (py_lower u title))"

text \<open>
  Two descriptions of the words of a title, to compare the scan with. \<open>runs P s\<close> lists
  the maximal runs of characters of \<open>s\<close> that satisfy \<open>P\<close>, from left to right.
\<close>

function runs :: "('a \<Rightarrow> bool) \<Rightarrow> 'a list \<Rightarrow> 'a list list" where
  "runs P [] = []"
| "runs P (c # cs) =
     (if P c then (c # takeWhile P cs) # runs P (dropWhile P cs) else runs P cs)"
  by pat_completeness auto
termination
  by (relation "measure (\<lambda>(P, s). length s)") (auto simp: length_dropWhile_le less_Suc_eq_le)

text \<open>
  The specification's wording: the maximal runs of alphabetic characters of length at
  least three of the lowercased title, without the stop words.
\<close>

definition spec_title_words :: "unicode \<Rightarrow> pystr \<Rightarrow> pystr list" where
  "spec_title_words u title =
     filter (\<lambda>w. w \<notin> set stop_words)
       (filter (\<lambda>w. 3 \<le> length w) (runs is_alpha (py_lower u title)))"

text \<open>
  What the scan yields: the maximal runs of \<^emph>\<open>word\<close> characters that have at least three
  characters, all of them of the class \<^verbatim>\<open>[a-zA-Z]\<close>.
\<close>

definition letters_only :: "pystr \<Rightarrow> bool" where
  "letters_only w = (3 \<le> length w \<and> list_all is_alpha w)"

definition word_tokens :: "unicode \<Rightarrow> pystr \<Rightarrow> pystr list" where
  "word_tokens u s = filter letters_only (runs (is_word u) s)"

text \<open>
  A database to run examples with. The texts of the examples are ASCII but for one
  letter, the e with an acute accent, capital (201) and small (233): both are
  alphanumeric, and lowering a text moves the capital one to the small one.
\<close>

definition small_unicode :: unicode where
  "small_unicode =
     \<lparr>uni_alnum = (\<lambda>c. c = 201 \<or> c = 233),
      uni_lower = map (\<lambda>c. if 65 \<le> c \<and> c \<le> 90 then c + 32 else if c = 201 then 233 else c)\<rparr>"

section \<open>Word frequencies (\<^verbatim>\<open>get_word_frequency\<close> and \<^verbatim>\<open>common_words\<close>, lines 109--120)\<close>

text \<open>\<^verbatim>\<open>titles.dropna()\<close>: the titles that are not null, in order.\<close>

fun dropna :: "'a option list \<Rightarrow> 'a list" where
  "dropna [] = []"
| "dropna (None # xs) = dropna xs"
| "dropna (Some x # xs) = x # dropna xs"

text \<open>The list \<^verbatim>\<open>all_words\<close> when the loop over the titles ends.\<close>

definition all_words :: "unicode \<Rightarrow> pystr option list \<Rightarrow> pystr list" where
  "all_words u titles = concat (map (title_words u) (dropna titles))"

text \<open>
  A \<^verbatim>\<open>Counter\<close> is a dictionary, and a dictionary keeps its keys in the order of their
  first insertion: it is modelled as an association list in that order. Counting an
  element adds one to its entry where it has one and appends a new entry otherwise.
\<close>

fun counter_incr :: "('a \<times> nat) list \<Rightarrow> 'a \<Rightarrow> ('a \<times> nat) list" where
  "counter_incr [] w = [(w, 1)]"
| "counter_incr ((k, n) # kvs) w =
     (if k = w then (k, n + 1) # kvs else (k, n) # counter_incr kvs w)"

definition Counter :: "'a list \<Rightarrow> ('a \<times> nat) list" where
  "Counter ws = foldl counter_incr [] ws"

definition get_word_frequency :: "unicode \<Rightarrow> pystr option list \<Rightarrow> (pystr \<times> nat) list" where
  "get_word_frequency u titles = Counter (all_words u titles)"

text \<open>
  \<^verbatim>\<open>most_common(n)\<close> is \<^verbatim>\<open>heapq.nlargest(n, items, key=count)\<close>, which the library
  documents as \<^verbatim>\<open>sorted(items, key=count, reverse=True)[:n]\<close>: a stable sort by falling
  count, cut after \<open>n\<close> entries.
\<close>

definition most_common :: "nat \<Rightarrow> ('a \<times> nat) list \<Rightarrow> ('a \<times> nat) list" where
  "most_common n c = take n (sort_key (\<lambda>kv. - int (snd kv)) c)"

text \<open>
  \<^verbatim>\<open>dict(pairs)\<close> inserts the pairs from left to right: a key seen before keeps its
  place and takes the new value.
\<close>

fun dict_set :: "('a \<times> 'b) list \<Rightarrow> 'a \<times> 'b \<Rightarrow> ('a \<times> 'b) list" where
  "dict_set [] kv = [kv]"
| "dict_set ((k, v) # kvs) kv =
     (if k = fst kv then (k, snd kv) # kvs else (k, v) # dict_set kvs kv)"

definition py_dict :: "('a \<times> 'b) list \<Rightarrow> ('a \<times> 'b) list" where
  "py_dict kvs = foldl dict_set [] kvs"

text \<open>The top \<open>n\<close> words; the script asks for 20.\<close>

definition top_words :: "unicode \<Rightarrow> nat \<Rightarrow> pystr option list \<Rightarrow> (pystr \<times> nat) list" where
  "top_words u n titles = py_dict (most_common n (get_word_frequency u titles))"

definition common_words :: "unicode \<Rightarrow> pystr option list \<Rightarrow> (pystr \<times> nat) list" where
  "common_words u titles = top_words u 20 titles"

text \<open>The position of the first occurrence of a word in a list of words.\<close>

definition first_index :: "'a list \<Rightarrow> 'a \<Rightarrow> nat" where
  "first_index ws w = length (takeWhile (\<lambda>x. x \<noteq> w) ws)"

text \<open>
  The order of a frequency table over the words \<open>ws\<close>: the larger count first, and of
  two equal counts the word that occurs first in \<open>ws\<close>.
\<close>

definition freq_before :: "'a list \<Rightarrow> 'a \<times> nat \<Rightarrow> 'a \<times> nat \<Rightarrow> bool" where
  "freq_before ws a b =
     (snd b < snd a \<or> (snd a = snd b \<and> first_index ws (fst a) < first_index ws (fst b)))"

text \<open>The distinct elements of a list in the order of their first occurrence.\<close>

definition first_seen :: "'a list \<Rightarrow> 'a list" where
  "first_seen ws = rev (remdups (rev ws))"

text \<open>An entry of a frequency table with a word of text, for the examples.\<close>

definition entry :: "string \<Rightarrow> nat \<Rightarrow> pystr \<times> nat" where
  "entry w n = (str w, n)"

section \<open>The loader (\<^verbatim>\<open>load_data\<close>, lines 19--52)\<close>

text \<open>
  The exceptions that the script can raise, by their classes; \<open>ValueError\<close> stands for
  its subclasses too (the \<^verbatim>\<open>EmptyDataError\<close> of an empty file).
\<close>

datatype py_error =
  FileNotFoundError | PermissionError | ValueError | AttributeError | IndexError
  | StreamlitAPIException

text \<open>
  A row of the file, with the four columns that \<^verbatim>\<open>usecols\<close> keeps; an empty cell is
  \<open>None\<close> (\<^verbatim>\<open>NaN\<close>).
\<close>

record csv_row =
  csv_title :: "pystr option"
  csv_publish_time :: "pystr option"
  csv_journal :: "pystr option"
  csv_authors :: "pystr option"

text \<open>
  \<^verbatim>\<open>read_csv\<close> gives every column a type. A column with a cell of text is \<open>Object\<close>,
  and so is every column of a file without rows; a column whose cells are all empty is
  \<open>Float64\<close>, and a column of numbers is \<open>Int64\<close> or \<open>Float64\<close>. The type of the
  title column is part of what is read, since line 43 depends on it.
\<close>

datatype dtype = Object | Float64 | Int64 | Bool

record csv_file =
  header :: "string list"
  title_dtype :: dtype
  rows :: "csv_row list"

text \<open>
  The working directory: a path has no file (\<open>None\<close>), a file that the process may not
  open, an empty file, or a file with a header line and rows.
\<close>

datatype disk_file = Locked | Empty | Csv csv_file

type_synonym files = "string \<rightharpoonup> disk_file"

definition use_cols :: "string list" where
  "use_cols = [''title'', ''publish_time'', ''journal'', ''authors'']"

text \<open>\<^verbatim>\<open>pd.read_csv(path, usecols=use_cols, low_memory=True)\<close>: a column of
  \<^verbatim>\<open>usecols\<close> that the header does not have raises \<^verbatim>\<open>ValueError\<close>.\<close>

definition read_csv :: "files \<Rightarrow> string \<Rightarrow> py_error + csv_file" where
  "read_csv fs path =
     (case fs path of
        None \<Rightarrow> Inl FileNotFoundError
      | Some Locked \<Rightarrow> Inl PermissionError
      | Some Empty \<Rightarrow> Inl ValueError
      | Some (Csv f) \<Rightarrow> if set use_cols \<subseteq> set (header f) then Inr f else Inl ValueError)"

text \<open>The \<^verbatim>\<open>try\<close> of lines 24--29: only \<^verbatim>\<open>FileNotFoundError\<close> leads to the second
  file.\<close>

definition read_metadata :: "files \<Rightarrow> py_error + csv_file" where
  "read_metadata fs =
     (case read_csv fs ''metadata.csv'' of
        Inl e \<Rightarrow> if e = FileNotFoundError then read_csv fs ''metadata_sample.csv'' else Inl e
      | Inr f \<Rightarrow> Inr f)"

text \<open>
  A row of the loaded table. The columns \<^verbatim>\<open>year\<close> and \<^verbatim>\<open>title_word_count\<close> are
  \<^verbatim>\<open>int16\<close>: 16-bit words, read as signed numbers by \<^const>\<open>sint\<close>.
\<close>

record 'ts paper =
  title :: "pystr option"
  publish_time :: "'ts option"
  journal :: "pystr option"
  authors :: "pystr option"
  year :: "16 word"
  title_word_count :: "16 word"

text \<open>
  The loaded table: its rows, and the categories of its \<^verbatim>\<open>journal\<close> column (line 46),
  which the column keeps when rows are filtered out or sampled.
\<close>

record 'ts frame =
  papers :: "'ts paper list"
  journal_categories :: "pystr set"

text \<open>
  What the loader takes from pandas and numpy, as parameters: the date parser on a column
  (\<^verbatim>\<open>pd.to_datetime(column, errors='coerce')\<close>, \<open>None\<close> being \<^verbatim>\<open>NaT\<close>), the year of
  a timestamp (\<^verbatim>\<open>.dt.year\<close>), and the permutation of \<open>0, \<dots>, n - 1\<close> that a random
  state draws, of which \<^verbatim>\<open>sample\<close> takes the first rows. A random state is seeded with a
  number, or it is the state of the process, which differs from run to run.
\<close>

datatype rng = Seeded nat | Ambient nat

record 'ts pandas =
  to_datetime :: "pystr option list \<Rightarrow> 'ts option list"
  dt_year :: "'ts \<Rightarrow> int"
  permutation :: "rng \<Rightarrow> nat \<Rightarrow> nat list"

definition permutes :: "'ts pandas \<Rightarrow> bool" where
  "permutes pd = (\<forall>r n. mset (permutation pd r n) = mset [0..<n])"

text \<open>The white space of \<^verbatim>\<open>str.split()\<close>: the code points for which \<^verbatim>\<open>str.isspace\<close>
  holds.\<close>

definition is_space :: "nat \<Rightarrow> bool" where
  "is_space c =
     ((9 \<le> c \<and> c \<le> 13) \<or> (28 \<le> c \<and> c \<le> 32) \<or> c = 0x85 \<or> c = 0xA0 \<or> c = 0x1680 \<or>
      (0x2000 \<le> c \<and> c \<le> 0x200A) \<or> c = 0x2028 \<or> c = 0x2029 \<or> c = 0x202F \<or>
      c = 0x205F \<or> c = 0x3000)"

text \<open>\<^verbatim>\<open>str.split()\<close>: skip white space, take the characters up to the next white
  space as one word, and go on behind it.\<close>

function py_split :: "pystr \<Rightarrow> pystr list" where
  "py_split [] = []"
| "py_split (c # cs) =
     (if is_space c then py_split cs
      else (c # takeWhile (\<lambda>x. \<not> is_space x) cs) # py_split (dropWhile (\<lambda>x. \<not> is_space x) cs))"
  by pat_completeness auto
termination
  by (relation "measure length") (auto simp: length_dropWhile_le less_Suc_eq_le)

text \<open>
  \<^verbatim>\<open>astype('int16')\<close> on a column of integers: a \<^verbatim>\<open>NaN\<close> in the column raises, a
  number is cut to its low 16 bits.
\<close>

fun astype_int16 :: "int option list \<Rightarrow> py_error + 16 word list" where
  "astype_int16 [] = Inr []"
| "astype_int16 (None # xs) = Inl ValueError"
| "astype_int16 (Some x # xs) =
     (case astype_int16 xs of Inl e \<Rightarrow> Inl e | Inr ys \<Rightarrow> Inr (word_of_int x # ys))"

text \<open>\<^verbatim>\<open>df.dropna(subset=['title', 'publish_time'])\<close>\<close>

definition dropna_title_time :: "csv_row list \<Rightarrow> csv_row list" where
  "dropna_title_time df = filter (\<lambda>r. csv_title r \<noteq> None \<and> csv_publish_time r \<noteq> None) df"

text \<open>\<^verbatim>\<open>df['publish_time'] = pd.to_datetime(df['publish_time'], errors='coerce')\<close>\<close>

definition convert_dates :: "'ts pandas \<Rightarrow> csv_row list \<Rightarrow> (csv_row \<times> 'ts option) list" where
  "convert_dates pd df = zip df (to_datetime pd (map csv_publish_time df))"

text \<open>\<^verbatim>\<open>df.dropna(subset=['publish_time'])\<close>\<close>

definition dropna_time :: "(csv_row \<times> 'ts option) list \<Rightarrow> (csv_row \<times> 'ts option) list" where
  "dropna_time df = filter (\<lambda>rt. snd rt \<noteq> None) df"

text \<open>\<^verbatim>\<open>df['publish_time'].dt.year.astype('int16')\<close>\<close>

definition year_column :: "'ts pandas \<Rightarrow> (csv_row \<times> 'ts option) list \<Rightarrow> py_error + 16 word list" where
  "year_column pd df = astype_int16 (map (\<lambda>rt. map_option (dt_year pd) (snd rt)) df)"

text \<open>\<^verbatim>\<open>df[(df['year'] >= 2019) & (df['year'] <= 2023)]\<close>\<close>

definition covid_era :: "('r \<times> 16 word) list \<Rightarrow> ('r \<times> 16 word) list" where
  "covid_era df = filter (\<lambda>ry. 2019 \<le> sint (snd ry) \<and> sint (snd ry) \<le> 2023) df"

text \<open>\<^verbatim>\<open>df['title'].str.split().str.len().astype('int16')\<close>: the accessor \<^verbatim>\<open>.str\<close>
  raises \<^verbatim>\<open>AttributeError\<close> on a column that is not \<open>Object\<close>.\<close>

definition word_count_column :: "dtype \<Rightarrow> pystr option list \<Rightarrow> py_error + 16 word list" where
  "word_count_column dt titles =
     (if dt \<noteq> Object then Inl AttributeError
      else astype_int16 (map (map_option (\<lambda>s. int (length (py_split s)))) titles))"

definition make_paper :: "((csv_row \<times> 'ts option) \<times> 16 word) \<times> 16 word \<Rightarrow> 'ts paper" where
  "make_paper x =
     \<lparr>title = csv_title (fst (fst (fst x))), publish_time = snd (fst (fst x)),
      journal = csv_journal (fst (fst (fst x))), authors = csv_authors (fst (fst (fst x))),
      year = snd (fst x), title_word_count = snd x\<rparr>"

text \<open>The table before the sampling step (lines 31--46).\<close>

definition clean_frame :: "'ts pandas \<Rightarrow> csv_file \<Rightarrow> py_error + 'ts frame" where
  "clean_frame pd f =
     (let df = dropna_time (convert_dates pd (dropna_title_time (rows f)))
      in case year_column pd df of
           Inl e \<Rightarrow> Inl e
         | Inr years \<Rightarrow>
             (let df' = covid_era (zip df years)
              in case word_count_column (title_dtype f)
                        (map (\<lambda>x. csv_title (fst (fst x))) df') of
                   Inl e \<Rightarrow> Inl e
                 | Inr counts \<Rightarrow>
                     Inr \<lparr>papers = map make_paper (zip df' counts),
                          journal_categories =
                            set (dropna (map (\<lambda>x. csv_journal (fst (fst x))) df'))\<rparr>))"

text \<open>
  \<^verbatim>\<open>df.sample(n, random_state=...)\<close> without replacement: asking for more rows than the
  table has raises, otherwise the rows at the first \<open>n\<close> indices of the permutation are
  returned. With \<^verbatim>\<open>random_state=None\<close> the state of the process draws, \<open>g\<close> in this run.
\<close>

definition df_sample :: "nat list \<Rightarrow> nat \<Rightarrow> 'a list \<Rightarrow> py_error + 'a list" where
  "df_sample perm n df =
     (if length df < n then Inl ValueError else Inr (map (\<lambda>i. df ! i) (take n perm)))"

definition sample :: "'ts pandas \<Rightarrow> nat \<Rightarrow> nat option \<Rightarrow> nat \<Rightarrow> 'a list \<Rightarrow> py_error + 'a list" where
  "sample pd g random_state n df =
     df_sample
       (permutation pd (case random_state of Some seed \<Rightarrow> Seeded seed | None \<Rightarrow> Ambient g)
          (length df))
       n df"

text \<open>The table of a file that was read: cleaning, then the sampling step (lines
  48--52). The sample size is a number of rows.\<close>

definition load_frame :: "'ts pandas \<Rightarrow> nat \<Rightarrow> csv_file \<Rightarrow> nat \<Rightarrow> py_error + 'ts frame" where
  "load_frame pd g f sample_size =
     (case clean_frame pd f of
        Inl e \<Rightarrow> Inl e
      | Inr df \<Rightarrow>
          if sample_size < length (papers df)
          then (case sample pd g (Some 42) sample_size (papers df) of
                  Inl e \<Rightarrow> Inl e
                | Inr ps \<Rightarrow> Inr (df\<lparr>papers := ps\<rparr>))
          else Inr df)"

definition load_data :: "'ts pandas \<Rightarrow> nat \<Rightarrow> files \<Rightarrow> nat \<Rightarrow> py_error + 'ts frame" where
  "load_data pd g fs sample_size =
     (case read_metadata fs of Inl e \<Rightarrow> Inl e | Inr f \<Rightarrow> load_frame pd g f sample_size)"

text \<open>
  \<^verbatim>\<open>@st.cache_data\<close>: the result of a call that returned is stored under its argument,
  and a later call with the same argument returns the stored table without running the
  function.
\<close>

type_synonym 'ts cache = "nat \<rightharpoonup> 'ts frame"

definition cached_load_data ::
  "'ts pandas \<Rightarrow> nat \<Rightarrow> 'ts cache \<Rightarrow> files \<Rightarrow> nat \<Rightarrow> (py_error + 'ts frame) \<times> 'ts cache" where
  "cached_load_data pd g cache fs sample_size =
     (case cache sample_size of
        Some df \<Rightarrow> (Inr df, cache)
      | None \<Rightarrow>
          (case load_data pd g fs sample_size of
             Inl e \<Rightarrow> (Inl e, cache)
           | Inr df \<Rightarrow> (Inr df, cache(sample_size \<mapsto> df))))"

text \<open>
  A small stand-in for the library, to run the loader on concrete files. Timestamps are
  triples of year, month and day. The parser knows the dates listed, all of the form
  year-month-day, and turns every other cell into \<^verbatim>\<open>NaT\<close>, as pandas does in a column
  whose first date has that form. A state seeded with 42 draws, for two, four, five and
  six rows, what the generator of numpy draws, and the identity for fewer rows and for
  three; the state of the process draws the reversal.
\<close>

definition known_dates :: "(pystr \<times> (int \<times> nat \<times> nat)) list" where
  "known_dates =
     [(str ''2018-11-30'', (2018, 11, 30)), (str ''2019-12-31'', (2019, 12, 31)),
      (str ''2020-01-05'', (2020, 1, 5)), (str ''2020-03-15'', (2020, 3, 15)),
      (str ''2021-06-01'', (2021, 6, 1)), (str ''2023-01-09'', (2023, 1, 9)),
      (str ''2024-02-02'', (2024, 2, 2))]"

definition seed_42 :: "(nat \<times> nat list) list" where
  "seed_42 = [(2, [1, 0]), (4, [1, 3, 0, 2]), (5, [1, 4, 2, 0, 3]), (6, [0, 1, 5, 2, 4, 3])]"

definition small_pandas :: "(int \<times> nat \<times> nat) pandas" where
  "small_pandas =
     \<lparr>to_datetime = map (\<lambda>c. case c of None \<Rightarrow> None | Some s \<Rightarrow> map_of known_dates s),
      dt_year = fst,
      permutation =
        (\<lambda>r n. case r of
                  Seeded seed \<Rightarrow> (case map_of seed_42 n of Some p \<Rightarrow> p | None \<Rightarrow> [0..<n])
                | Ambient g \<Rightarrow> rev [0..<n])\<rparr>"

text \<open>A line of a file with the cells of the title, the date and the journal, and no
  author; an empty text is an empty cell.\<close>

definition cell :: "string \<Rightarrow> pystr option" where
  "cell s = (if s = [] then None else Some (str s))"

definition csv_entry :: "string \<Rightarrow> string \<Rightarrow> string \<Rightarrow> csv_row" where
  "csv_entry t d j =
     \<lparr>csv_title = cell t, csv_publish_time = cell d, csv_journal = cell j, csv_authors = None\<rparr>"

text \<open>Files with the four columns: one whose title column is text, and one in which no
  row has a title.\<close>

definition text_file :: "csv_row list \<Rightarrow> disk_file" where
  "text_file rs = Csv \<lparr>header = use_cols, title_dtype = Object, rows = rs\<rparr>"

definition untitled_file :: "csv_row list \<Rightarrow> disk_file" where
  "untitled_file rs = Csv \<lparr>header = use_cols, title_dtype = Float64, rows = rs\<rparr>"

text \<open>The loaded row of a line of a file, for the examples.\<close>

definition loaded :: "string \<Rightarrow> int \<times> nat \<times> nat \<Rightarrow> string \<Rightarrow> int \<Rightarrow> (int \<times> nat \<times> nat) paper" where
  "loaded t d j n =
     \<lparr>title = cell t, publish_time = Some d, journal = cell j, authors = None,
      year = word_of_int (fst d), title_word_count = word_of_int n\<rparr>"

text \<open>A title of 32768 one-letter words.\<close>

definition long_title :: pystr where
  "long_title = concat (replicate 32768 (str ''a ''))"

text \<open>
  The number of white-space-delimited tokens of a text, counted at their first
  characters: a character that is not white space and stands at the start of the text or
  behind white space.
\<close>

fun token_starts :: "bool \<Rightarrow> pystr \<Rightarrow> nat" where
  "token_starts b [] = 0"
| "token_starts b (c # cs) =
     (if b \<and> \<not> is_space c then 1 else 0) + token_starts (is_space c) cs"

definition whitespace_tokens :: "pystr \<Rightarrow> nat" where
  "whitespace_tokens s = token_starts True s"

text \<open>Two stages of the cleaning, named for the proofs: the rows with a title and a
  parsed date, and those of them whose year lies in the bound, with their year.\<close>

definition dated :: "'ts pandas \<Rightarrow> csv_row list \<Rightarrow> (csv_row \<times> 'ts option) list" where
  "dated pd rs = dropna_time (convert_dates pd (dropna_title_time rs))"

definition in_era :: "'ts pandas \<Rightarrow> csv_row list \<Rightarrow> ((csv_row \<times> 'ts option) \<times> 16 word) list" where
  "in_era pd rs =
     covid_era (map (\<lambda>rt. (rt, word_of_int (dt_year pd (the (snd rt))))) (dated pd rs))"

text \<open>
  Working directories for the examples: one with the sample file only, in which one line
  has no title, one a date that does not parse and two a year outside the bound; one with
  both files; one whose first file lacks the column of the authors; one whose only file
  has no title at all; one with four lines that the cleaning keeps; and one with a line
  of the long title.
\<close>

definition sample_files :: files where
  "sample_files =
     [''metadata_sample.csv'' \<mapsto>
        text_file
          [csv_entry ''Old paper'' ''2018-11-30'' ''Nature'',
           csv_entry [] ''2021-06-01'' ''Nature'',
           csv_entry ''Rapid COVID-19 Testing Methods'' ''2020-03-15'' ''Lancet'',
           csv_entry ''No date'' ''spring 2020'' ''Nature'',
           csv_entry ''Late paper'' ''2024-02-02'' ''Lancet'']]"

definition full_files :: files where
  "full_files =
     [''metadata.csv'' \<mapsto> text_file [csv_entry ''Vaccine trial'' ''2021-06-01'' ''Nature''],
      ''metadata_sample.csv'' \<mapsto> text_file [csv_entry ''Old paper'' ''2018-11-30'' ''Nature'']]"


definition untitled_files :: files where
  "untitled_files =
     [''metadata.csv'' \<mapsto> untitled_file [csv_entry [] ''2020-03-15'' ''Nature'']]"

definition four_lines :: csv_file where
  "four_lines =
     \<lparr>header = use_cols, title_dtype = Object,
      rows =
        [csv_entry ''First wave'' ''2020-01-05'' ''Nature'',
         csv_entry ''Second wave'' ''2020-03-15'' ''Lancet'',
         csv_entry ''Vaccine trial'' ''2021-06-01'' ''Nature'',
         csv_entry ''Booster study'' ''2023-01-09'' ''Lancet'']\<rparr>"

definition long_title_file :: csv_file where
  "long_title_file =
     \<lparr>header = use_cols, title_dtype = Object,
      rows =
        [\<lparr>csv_title = Some long_title, csv_publish_time = cell ''2020-03-15'',
          csv_journal = cell ''Nature'', csv_authors = None\<rparr>]\<rparr>"

text \<open>The table of the four lines after the cleaning, and the two rows of it that the
  seed 42 draws.\<close>

definition four_cleaned :: "(int \<times> nat \<times> nat) frame" where
  "four_cleaned =
     \<lparr>papers =
        [loaded ''First wave'' (2020, 1, 5) ''Nature'' 2,
         loaded ''Second wave'' (2020, 3, 15) ''Lancet'' 2,
         loaded ''Vaccine trial'' (2021, 6, 1) ''Nature'' 2,
         loaded ''Booster study'' (2023, 1, 9) ''Lancet'' 2],
      journal_categories = {str ''Nature'', str ''Lancet''}\<rparr>"

definition two_sampled :: "(int \<times> nat \<times> nat) frame" where
  "two_sampled =
     \<lparr>papers =
        [loaded ''Second wave'' (2020, 3, 15) ''Lancet'' 2,
         loaded ''Booster study'' (2023, 1, 9) ''Lancet'' 2],
      journal_categories = {str ''Nature'', str ''Lancet''}\<rparr>"

section \<open>The page (lines 56--162)\<close>

text \<open>
  The script runs from top to bottom and stops at the first exception. Its computations
  are modelled with the places where they raise; of the calls that draw, the two that
  raise on the tables of a run are: the slider, which refuses bounds that are equal, and
  the bar chart of the journals, which fails on a journal column without categories. The
  values of the two journal statistics and of the mean title length, which no claim
  reaches, are left out of the page.

  \<^verbatim>\<open>Series.min()\<close> and \<^verbatim>\<open>Series.max()\<close> of an empty column are \<^verbatim>\<open>NaN\<close> (\<open>None\<close>),
  and \<^verbatim>\<open>int(NaN)\<close> raises \<^verbatim>\<open>ValueError\<close>.
\<close>

fun series_min :: "int list \<Rightarrow> int option" where
  "series_min [] = None"
| "series_min (x # xs) = Some (fold min xs x)"

fun series_max :: "int list \<Rightarrow> int option" where
  "series_max [] = None"
| "series_max (x # xs) = Some (fold max xs x)"

definition py_int :: "int option \<Rightarrow> py_error + int" where
  "py_int v = (case v of None \<Rightarrow> Inl ValueError | Some i \<Rightarrow> Inr i)"

text \<open>The column \<^verbatim>\<open>df['year']\<close>, read as signed numbers.\<close>

definition years :: "'ts paper list \<Rightarrow> int list" where
  "years df = map (\<lambda>r. sint (year r)) df"

text \<open>\<^verbatim>\<open>st.sidebar.slider(label, lo, hi, (lo, hi))\<close> (lines 66--71): equal bounds raise;
  otherwise the slider returns the pair that the user has selected between the bounds,
  \<open>selection lo hi\<close>, which is the pair of the bounds as long as the user has selected
  nothing.\<close>

definition slider :: "(int \<Rightarrow> int \<Rightarrow> int \<times> int) \<Rightarrow> int \<Rightarrow> int \<Rightarrow> py_error + int \<times> int" where
  "slider selection lo hi = (if hi \<le> lo then Inl StreamlitAPIException else Inr (selection lo hi))"

text \<open>\<^verbatim>\<open>df[(df['year'] >= year_range[0]) & (df['year'] <= year_range[1])]\<close> (line 74)\<close>

definition filter_years :: "int \<times> int \<Rightarrow> 'ts paper list \<Rightarrow> 'ts paper list" where
  "filter_years year_range df =
     filter (\<lambda>r. fst year_range \<le> sint (year r) \<and> sint (year r) \<le> snd year_range) df"

text \<open>\<^verbatim>\<open>filtered_df['year'].value_counts().sort_index()\<close>: the years that occur, rising,
  each with the number of its rows.\<close>

definition yearly_counts :: "'ts paper list \<Rightarrow> (int \<times> nat) list" where
  "yearly_counts df = map (\<lambda>y. (y, count_list (years df) y)) (sort (remdups (years df)))"

text \<open>\<^verbatim>\<open>idxmax()\<close>: the index of the first largest value; an empty series raises
  \<^verbatim>\<open>ValueError\<close>.\<close>

fun idxmax :: "(int \<times> nat) list \<Rightarrow> py_error + int" where
  "idxmax [] = Inl ValueError"
| "idxmax (kv # kvs) = Inr (fst (fold (\<lambda>a b. if snd b < snd a then a else b) kvs kv))"

text \<open>\<^verbatim>\<open>top_journals.plot(kind='barh')\<close> (lines 97--100): the counts of a categorical
  column have an entry for every category, and the chart of no entry raises
  \<^verbatim>\<open>IndexError\<close>.\<close>

definition plot_journals :: "pystr set \<Rightarrow> py_error + unit" where
  "plot_journals categories = (if categories = {} then Inl IndexError else Inr ())"

text \<open>What a run shows. \<open>word_cloud\<close> is \<open>None\<close> when the guard of line 135 skips the
  cloud.\<close>

record 'ts page =
  year_range :: "int \<times> int"
  total_papers :: nat
  peak_year :: int
  peak_publications :: "int option"
  bar_words :: "(pystr \<times> nat) list"
  word_cloud :: "(pystr \<times> nat) list option"
  sample_table :: "'ts paper list"
  years_covered :: "int option"

text \<open>
  One run of the script below line 57 on the loaded table \<open>df\<close>, in a process whose
  random state is \<open>g\<close>: the sample of line 147 is drawn without a seed.
\<close>

definition render ::
  "unicode \<Rightarrow> 'ts pandas \<Rightarrow> nat \<Rightarrow> (int \<Rightarrow> int \<Rightarrow> int \<times> int) \<Rightarrow> 'ts frame \<Rightarrow> py_error + 'ts page" where
  "render u pd g selection df =
     (case py_int (series_min (years (papers df))) of
        Inl e \<Rightarrow> Inl e
      | Inr lo \<Rightarrow>
     (case py_int (series_max (years (papers df))) of
        Inl e \<Rightarrow> Inl e
      | Inr hi \<Rightarrow>
     (case slider selection lo hi of
        Inl e \<Rightarrow> Inl e
      | Inr selected \<Rightarrow>
     (let filtered_df = filter_years selected (papers df);
          counts = yearly_counts filtered_df
      in case idxmax counts of
        Inl e \<Rightarrow> Inl e
      | Inr peak \<Rightarrow>
     (case plot_journals (journal_categories df) of
        Inl e \<Rightarrow> Inl e
      | Inr _ \<Rightarrow>
     (let words = common_words u (map title filtered_df)
      in case sample pd g None (min 10 (length filtered_df)) filtered_df of
        Inl e \<Rightarrow> Inl e
      | Inr shown \<Rightarrow>
          Inr \<lparr>year_range = selected,
               total_papers = length filtered_df,
               peak_year = peak,
               peak_publications = series_max (map (\<lambda>kv. int (snd kv)) counts),
               bar_words = take 15 words,
               word_cloud = (if 0 < length words then Some words else None),
               sample_table = shown,
               years_covered =
                 (case (series_max (years filtered_df), series_min (years filtered_df)) of
                    (Some a, Some b) \<Rightarrow> Some (a - b + 1)
                  | _ \<Rightarrow> None)\<rparr>))))))"

text \<open>The slider as the page first shows it: the whole range.\<close>

definition whole_range :: "int \<Rightarrow> int \<Rightarrow> int \<times> int" where
  "whole_range lo hi = (lo, hi)"

text \<open>The whole script: the cached load with the default sample size, then the page.\<close>

definition run_script ::
  "unicode \<Rightarrow> 'ts pandas \<Rightarrow> nat \<Rightarrow> 'ts cache \<Rightarrow> files \<Rightarrow> (int \<Rightarrow> int \<Rightarrow> int \<times> int) \<Rightarrow>
     (py_error + 'ts page) \<times> 'ts cache" where
  "run_script u pd g cache fs selection =
     (case cached_load_data pd g cache fs 50000 of
        (Inl e, cache') \<Rightarrow> (Inl e, cache')
      | (Inr df, cache') \<Rightarrow> (render u pd g selection df, cache'))"

text \<open>A working directory whose only file has no row of the years 2019 to 2023; the
  rows of a table of three papers of two years; the table; and its page with the slider
  on its whole range.\<close>

definition old_files :: files where
  "old_files = [''metadata.csv'' \<mapsto> text_file [csv_entry ''Old paper'' ''2018-11-30'' []]]"

definition three_papers :: "(int \<times> nat \<times> nat) paper list" where
  "three_papers =
     [loaded ''First wave'' (2020, 1, 5) ''Nature'' 2,
      loaded ''Second wave'' (2020, 3, 15) ''Lancet'' 2,
      loaded ''Vaccine trial'' (2021, 6, 1) ''Nature'' 2]"

definition three_frame :: "(int \<times> nat \<times> nat) frame" where
  "three_frame = \<lparr>papers = three_papers, journal_categories = {str ''Nature'', str ''Lancet''}\<rparr>"

definition three_page :: "(int \<times> nat \<times> nat) page" where
  "three_page =
     \<lparr>year_range = (2020, 2021), total_papers = 3, peak_year = 2020,
      peak_publications = Some 2,
      bar_words =
        [entry ''wave'' 2, entry ''first'' 1, entry ''second'' 1, entry ''vaccine'' 1,
         entry ''trial'' 1],
      word_cloud =
        Some [entry ''wave'' 2, entry ''first'' 1, entry ''second'' 1, entry ''vaccine'' 1,
              entry ''trial'' 1],
      sample_table = rev three_papers,
      years_covered = Some 2\<rparr>"

section \<open>Properties of the tokenizer\<close>

lemma alpha_word: "is_alpha c \<Longrightarrow> is_word u c"
  by (auto simp: is_word_def is_alpha_def)

lemma takeWhile_prop: "i < length (takeWhile P xs) \<Longrightarrow> P (xs ! i)"
  by (metis nth_mem set_takeWhileD takeWhile_nth)

lemma nth_opt_alpha:
  assumes "i < length (takeWhile is_alpha s)"
  shows "opt_word u (nth_opt s i)"
proof -
  have "length (takeWhile is_alpha s) \<le> length s" by (rule length_takeWhile_le)
  with assms have "i < length s" by simp
  moreover have "is_alpha (s ! i)" using assms by (rule takeWhile_prop)
  ultimately show ?thesis by (simp add: nth_opt_def alpha_word)
qed

lemma backtrack_short: "k < length (takeWhile is_alpha s) \<Longrightarrow> backtrack u s k = None"
proof (induction u s k rule: backtrack.induct)
  case (1 u s k)
  show ?case
  proof (cases "k < 3")
    case True
    then show ?thesis by (simp add: backtrack.simps [of u s k])
  next
    case False
    from "1.prems" have "k - 1 < length (takeWhile is_alpha s)" by simp
    then have a: "opt_word u (nth_opt s (k - 1))" by (rule nth_opt_alpha)
    have b: "opt_word u (nth_opt s k)" using "1.prems" by (rule nth_opt_alpha)
    have nb: "\<not> word_boundary u (nth_opt s (k - 1)) (nth_opt s k)"
      using a b by (simp add: word_boundary_def)
    from "1.prems" have "k - 1 < length (takeWhile is_alpha s)" by simp
    with "1.IH" [OF False nb] have "backtrack u s (k - 1) = None" by simp
    then show ?thesis using False nb by (simp add: backtrack.simps [of u s k])
  qed
qed

lemma backtrack_full:
  "backtrack u s (length (takeWhile is_alpha s)) =
     (if 3 \<le> length (takeWhile is_alpha s) \<and>
         \<not> opt_word u (nth_opt s (length (takeWhile is_alpha s)))
      then Some (length (takeWhile is_alpha s)) else None)"
proof -
  define n where "n = length (takeWhile is_alpha s)"
  have "backtrack u s n = (if 3 \<le> n \<and> \<not> opt_word u (nth_opt s n) then Some n else None)"
  proof (cases "3 \<le> n")
    case False
    then show ?thesis by (simp add: backtrack.simps [of u s n])
  next
    case True
    then have "n - 1 < length (takeWhile is_alpha s)" by (simp add: n_def)
    then have a: "opt_word u (nth_opt s (n - 1))" and b: "backtrack u s (n - 1) = None"
      by (rule nth_opt_alpha, rule backtrack_short)
    show ?thesis using True a b by (simp add: backtrack.simps [of u s n] word_boundary_def)
  qed
  then show ?thesis by (simp add: n_def)
qed

lemma nth_opt_Nil [simp]: "nth_opt [] i = None"
  by (simp add: nth_opt_def)

lemma nth_opt_Cons_0 [simp]: "nth_opt (x # xs) 0 = Some x"
  by (simp add: nth_opt_def)

lemma nth_opt_Cons_Suc [simp]: "nth_opt (x # xs) (Suc i) = nth_opt xs i"
  by (simp add: nth_opt_def)

lemma word_run_letters:
  "\<not> opt_word u (nth_opt s (length (takeWhile is_alpha s))) \<Longrightarrow>
     takeWhile (is_word u) s = takeWhile is_alpha s"
proof (induction s)
  case Nil
  show ?case by simp
next
  case (Cons a s)
  show ?case
  proof (cases "is_alpha a")
    case True
    with Cons show ?thesis by (simp add: alpha_word)
  next
    case False
    with Cons.prems show ?thesis by simp
  qed
qed

lemma letters_word_run:
  "list_all is_alpha (takeWhile (is_word u) s) \<Longrightarrow>
     takeWhile is_alpha s = takeWhile (is_word u) s \<and>
     \<not> opt_word u (nth_opt s (length (takeWhile is_alpha s)))"
proof (induction s)
  case Nil
  show ?case by simp
next
  case (Cons a s)
  show ?case
  proof (cases "(is_word u) a")
    case True
    with Cons.prems have a: "is_alpha a" and r: "list_all is_alpha (takeWhile (is_word u) s)"
      by simp_all
    from Cons.IH [OF r] have "takeWhile is_alpha s = takeWhile (is_word u) s"
      and "\<not> opt_word u (nth_opt s (length (takeWhile is_alpha s)))" by blast+
    with a True show ?thesis by simp
  next
    case False
    then have "\<not> is_alpha a" using alpha_word by blast
    with False show ?thesis by simp
  qed
qed

lemma match_at_run:
  "match_at u p s =
     (if word_boundary u p (nth_opt s 0) \<and> letters_only (takeWhile (is_word u) s)
      then Some (length (takeWhile (is_word u) s)) else None)"
proof (cases "letters_only (takeWhile (is_word u) s)")
  case True
  then have "list_all is_alpha (takeWhile (is_word u) s)" by (simp add: letters_only_def)
  then have eq: "takeWhile is_alpha s = takeWhile (is_word u) s"
    and nw: "\<not> opt_word u (nth_opt s (length (takeWhile is_alpha s)))"
    using letters_word_run [of u s] by blast+
  from True have "3 \<le> length (takeWhile is_alpha s)" by (simp add: letters_only_def eq)
  with nw have "backtrack u s (length (takeWhile is_alpha s)) = Some (length (takeWhile is_alpha s))"
    by (simp add: backtrack_full)
  with True show ?thesis
    by (simp add: match_at_def eq)
next
  case False
  have "\<not> (3 \<le> length (takeWhile is_alpha s) \<and>
            \<not> opt_word u (nth_opt s (length (takeWhile is_alpha s))))"
  proof
    assume h: "3 \<le> length (takeWhile is_alpha s) \<and>
            \<not> opt_word u (nth_opt s (length (takeWhile is_alpha s)))"
    then have "takeWhile (is_word u) s = takeWhile is_alpha s" by (simp add: word_run_letters)
    moreover have "list_all is_alpha (takeWhile is_alpha s)"
      by (simp add: list_all_iff) (meson set_takeWhileD)
    ultimately have "letters_only (takeWhile (is_word u) s)" using h by (simp add: letters_only_def)
    with False show False by simp
  qed
  then have "backtrack u s (length (takeWhile is_alpha s)) = None"
    by (simp only: backtrack_full if_False)
  with False show ?thesis by (simp add: match_at_def)
qed

lemma findall_from_runs:
  "findall_from u p s =
     (if opt_word u p then word_tokens u (dropWhile (is_word u) s) else word_tokens u s)"
proof (induction u p s rule: findall_from.induct)
  case (1 u p)
  show ?case by (simp add: word_tokens_def)
next
  case (2 u p c cs)
  let ?s = "c # cs"
  let ?w = "takeWhile (is_word u) ?s"
  show ?case
  proof (cases "word_boundary u p (nth_opt ?s 0) \<and> letters_only ?w")
    case True
    then have m: "match_at u p ?s = Some (length ?w)" by (simp add: match_at_run)
    from True have len: "3 \<le> length ?w" by (simp add: letters_only_def)
    then have wc: "(is_word u) c" by (auto split: if_splits)
    with True have np: "\<not> opt_word u p" by (simp add: word_boundary_def nth_opt_def)
    have "length ?w - 1 < length ?w" using len by simp
    then have "(is_word u) (?s ! (length ?w - 1))" by (rule takeWhile_prop)
    moreover have "length ?w \<le> length ?s" by (rule length_takeWhile_le)
    ultimately have prev: "opt_word u (nth_opt ?s (length ?w - 1))"
      using len by (simp add: nth_opt_def)
    have tk: "take (length ?w) ?s = ?w" by (rule takeWhile_eq_take [symmetric])
    have dr: "drop (length ?w) ?s = dropWhile (is_word u) ?s" by (rule dropWhile_eq_drop [symmetric])
    have "findall_from u (nth_opt ?s (length ?w - 1)) (drop (length ?w) ?s) =
            word_tokens u (dropWhile (is_word u) (drop (length ?w) ?s))"
      using "2.IH"(2) [OF m] prev by simp
    also have "\<dots> = word_tokens u (dropWhile (is_word u) cs)"
      using wc by (simp only: dr dropWhile_idem) simp
    finally have rest: "findall_from u (nth_opt ?s (length ?w - 1)) (drop (length ?w) ?s) =
            word_tokens u (dropWhile (is_word u) cs)" .
    have "findall_from u p ?s = ?w # word_tokens u (dropWhile (is_word u) cs)"
      using m rest tk by (simp del: take_Suc_Cons drop_Suc_Cons takeWhile.simps)
    moreover have "word_tokens u ?s = ?w # word_tokens u (dropWhile (is_word u) cs)"
      using wc True by (simp add: word_tokens_def)
    ultimately show ?thesis using np by simp
  next
    case False
    then have m: "match_at u p ?s = None" by (simp add: match_at_run)
    have ih: "findall_from u (Some c) cs =
        (if (is_word u) c then word_tokens u (dropWhile (is_word u) cs) else word_tokens u cs)"
      using "2.IH"(1) [OF m] by simp
    have lhs: "findall_from u p ?s = findall_from u (Some c) cs" using m by simp
    show ?thesis
    proof (cases "(is_word u) c")
      case wc: True
      show ?thesis
      proof (cases "opt_word u p")
        case True
        with wc lhs ih show ?thesis by simp
      next
        case np: False
        with wc have "word_boundary u p (nth_opt ?s 0)" by (simp add: word_boundary_def nth_opt_def)
        with False have "\<not> letters_only ?w" by simp
        with wc have "word_tokens u ?s = word_tokens u (dropWhile (is_word u) cs)"
          by (simp add: word_tokens_def)
        with np wc lhs ih show ?thesis by simp
      qed
    next
      case nw: False
      then have "word_tokens u ?s = word_tokens u cs" by (simp add: word_tokens_def)
      with nw lhs ih show ?thesis by simp
    qed
  qed
qed

section \<open>Properties of the frequency table\<close>

lemma first_seen_snoc:
  "first_seen (ws @ [w]) = (if w \<in> set ws then first_seen ws else first_seen ws @ [w])"
  by (simp add: first_seen_def)

lemma set_first_seen: "set (first_seen ws) = set ws"
  by (simp add: first_seen_def)

lemma distinct_first_seen: "distinct (first_seen ws)"
  by (simp add: first_seen_def)

lemma counter_incr_map:
  "distinct ks \<Longrightarrow>
   counter_incr (map (\<lambda>k. (k, f k)) ks) w =
     (if w \<in> set ks then map (\<lambda>k. (k, if k = w then f k + 1 else f k)) ks
      else map (\<lambda>k. (k, f k)) ks @ [(w, 1)])"
proof (induction ks)
  case Nil
  show ?case by simp
next
  case (Cons k ks)
  then have d: "distinct ks" and nk: "k \<notin> set ks" by simp_all
  show ?case
  proof (cases "k = w")
    case True
    with nk have "map (\<lambda>k. (k, if k = w then f k + 1 else f k)) ks = map (\<lambda>k. (k, f k)) ks"
      by (intro map_cong) auto
    with True show ?thesis by simp
  next
    case False
    with Cons.IH [OF d] show ?thesis by simp
  qed
qed

lemma Counter_snoc: "Counter (ws @ [w]) = counter_incr (Counter ws) w"
  by (simp add: Counter_def)

lemma Counter_counts: "Counter ws = map (\<lambda>k. (k, count_list ws k)) (first_seen ws)"
proof (induction ws rule: rev_induct)
  case Nil
  show ?case by (simp add: Counter_def first_seen_def)
next
  case (snoc w ws)
  have step: "Counter (ws @ [w]) =
      (if w \<in> set ws
       then map (\<lambda>k. (k, if k = w then count_list ws k + 1 else count_list ws k)) (first_seen ws)
       else map (\<lambda>k. (k, count_list ws k)) (first_seen ws) @ [(w, 1)])"
    by (simp only: Counter_snoc snoc.IH counter_incr_map [OF distinct_first_seen] set_first_seen)
  show ?case
  proof (cases "w \<in> set ws")
    case True
    have "map (\<lambda>k. (k, if k = w then count_list ws k + 1 else count_list ws k)) (first_seen ws) =
          map (\<lambda>k. (k, count_list (ws @ [w]) k)) (first_seen ws)"
      by (intro map_cong) auto
    with True step show ?thesis by (simp add: first_seen_snoc)
  next
    case False
    have "map (\<lambda>k. (k, count_list ws k)) (first_seen ws) =
          map (\<lambda>k. (k, count_list (ws @ [w]) k)) (first_seen ws)"
      using False by (intro map_cong) (auto simp: set_first_seen)
    with False step show ?thesis by (simp add: first_seen_snoc)
  qed
qed

lemma first_index_less: "k \<in> set ws \<Longrightarrow> first_index ws k < length ws"
  by (induction ws) (auto simp: first_index_def)

lemma first_index_snoc_old: "k \<in> set ws \<Longrightarrow> first_index (ws @ [w]) k = first_index ws k"
  by (induction ws) (auto simp: first_index_def)

lemma first_index_snoc_new: "w \<notin> set ws \<Longrightarrow> first_index (ws @ [w]) w = length ws"
  by (induction ws) (auto simp: first_index_def)

lemma sorted_first_seen:
  "sorted_wrt (\<lambda>a b. first_index ws a < first_index ws b) (first_seen ws)"
proof (induction ws rule: rev_induct)
  case Nil
  show ?case by (simp add: first_seen_def)
next
  case (snoc w ws)
  have old: "sorted_wrt (\<lambda>a b. first_index (ws @ [w]) a < first_index (ws @ [w]) b) (first_seen ws)"
    by (rule sorted_wrt_mono_rel [OF _ snoc.IH]) (simp add: set_first_seen first_index_snoc_old)
  show ?case
  proof (cases "w \<in> set ws")
    case True
    with old show ?thesis by (simp add: first_seen_snoc)
  next
    case False
    have "\<forall>x\<in>set (first_seen ws). first_index (ws @ [w]) x < first_index (ws @ [w]) w"
      using False by (simp add: set_first_seen first_index_snoc_old first_index_snoc_new first_index_less)
    with old False show ?thesis by (simp add: first_seen_snoc sorted_wrt_append)
  qed
qed

lemma insort_key_stable:
  fixes f :: "'a \<Rightarrow> int"
  assumes "sorted_wrt (\<lambda>a b. f a < f b \<or> (f a = f b \<and> R a b)) ys"
    and "\<forall>y\<in>set ys. R x y"
  shows "sorted_wrt (\<lambda>a b. f a < f b \<or> (f a = f b \<and> R a b)) (insort_key f x ys)"
  using assms
proof (induction ys)
  case Nil
  show ?case by simp
next
  case (Cons y ys)
  show ?case
  proof (cases "f x \<le> f y")
    case True
    have "\<forall>z\<in>set (y # ys). f x < f z \<or> (f x = f z \<and> R x z)"
    proof
      fix z assume z: "z \<in> set (y # ys)"
      have "f y \<le> f z" using z Cons.prems(1) by auto
      with True have "f x \<le> f z" by simp
      moreover have "R x z" using z Cons.prems(2) by auto
      ultimately show "f x < f z \<or> (f x = f z \<and> R x z)" by auto
    qed
    with True Cons.prems(1) show ?thesis by simp
  next
    case False
    have "sorted_wrt (\<lambda>a b. f a < f b \<or> (f a = f b \<and> R a b)) (insort_key f x ys)"
      using Cons by simp
    moreover have "\<forall>z\<in>set (insort_key f x ys). f y < f z \<or> (f y = f z \<and> R y z)"
      using False Cons.prems(1) by (auto simp: set_insort_key)
    ultimately show ?thesis using False by simp
  qed
qed

lemma sort_key_stable_wrt:
  fixes f :: "'a \<Rightarrow> int"
  shows "sorted_wrt R xs \<Longrightarrow>
    sorted_wrt (\<lambda>a b. f a < f b \<or> (f a = f b \<and> R a b)) (sort_key f xs)"
proof (induction xs)
  case Nil
  show ?case by simp
next
  case (Cons x xs)
  then have "sorted_wrt (\<lambda>a b. f a < f b \<or> (f a = f b \<and> R a b)) (sort_key f xs)"
    and "\<forall>y\<in>set (sort_key f xs). R x y" by simp_all
  then have "sorted_wrt (\<lambda>a b. f a < f b \<or> (f a = f b \<and> R a b)) (insort_key f x (sort_key f xs))"
    by (rule insort_key_stable)
  then show ?case by simp
qed

lemma dict_set_new: "fst kv \<notin> fst ` set acc \<Longrightarrow> dict_set acc kv = acc @ [kv]"
  by (induction acc) auto

lemma foldl_dict_set: "distinct (map fst (acc @ kvs)) \<Longrightarrow> foldl dict_set acc kvs = acc @ kvs"
proof (induction kvs arbitrary: acc)
  case Nil
  show ?case by simp
next
  case (Cons kv kvs)
  then have "fst kv \<notin> fst ` set acc" by auto
  then have "dict_set acc kv = acc @ [kv]" by (rule dict_set_new)
  moreover have "distinct (map fst ((acc @ [kv]) @ kvs))" using Cons.prems by simp
  ultimately show ?case using Cons.IH [of "acc @ [kv]"] by simp
qed

lemma py_dict_distinct: "distinct (map fst kvs) \<Longrightarrow> py_dict kvs = kvs"
  using foldl_dict_set [of "[]" kvs] by (simp add: py_dict_def)

lemma distinct_Counter: "distinct (map fst (Counter ws))"
  by (simp add: Counter_counts comp_def distinct_first_seen)

lemma distinct_most_common:
  "distinct (map fst c) \<Longrightarrow> distinct (map fst (most_common n c))"
proof -
  assume "distinct (map fst c)"
  then have "distinct (map fst (sort_key (\<lambda>kv. - int (snd kv)) c))"
    by (simp add: distinct_map)
  then have "distinct (take n (map fst (sort_key (\<lambda>kv. - int (snd kv)) c)))"
    by (rule distinct_take)
  then show ?thesis by (simp add: most_common_def take_map)
qed

lemma top_words_eq: "top_words u n titles = most_common n (Counter (all_words u titles))"
  by (simp add: top_words_def get_word_frequency_def py_dict_distinct distinct_most_common
      distinct_Counter)

lemma sorted_Counter:
  "sorted_wrt (\<lambda>a b. first_index ws (fst a) < first_index ws (fst b)) (Counter ws)"
  by (simp add: Counter_counts sorted_wrt_map sorted_first_seen)

lemma sorted_most_common:
  "sorted_wrt (freq_before ws) (most_common n (Counter ws))"
proof -
  let ?f = "\<lambda>kv :: 'a \<times> nat. - int (snd kv)"
  let ?R = "\<lambda>a b :: 'a \<times> nat. first_index ws (fst a) < first_index ws (fst b)"
  have "sorted_wrt (\<lambda>a b. ?f a < ?f b \<or> (?f a = ?f b \<and> ?R a b)) (sort_key ?f (Counter ws))"
    using sorted_Counter by (rule sort_key_stable_wrt)
  then have "sorted_wrt (freq_before ws) (sort_key ?f (Counter ws))"
    by (rule sorted_wrt_mono_rel [rotated]) (auto simp: freq_before_def)
  then show ?thesis unfolding most_common_def by (rule sorted_wrt_take)
qed

lemma most_common_counts:
  "kv \<in> set (most_common n (Counter ws)) \<Longrightarrow> snd kv = count_list ws (fst kv)"
proof -
  assume "kv \<in> set (most_common n (Counter ws))"
  then have "kv \<in> set (sort_key (\<lambda>kv. - int (snd kv)) (Counter ws))"
    unfolding most_common_def by (rule in_set_takeD)
  then have "kv \<in> set (Counter ws)" by simp
  then show ?thesis by (auto simp: Counter_counts)
qed


lemma most_common_length: "length (most_common n c) = min n (length c)"
  by (simp add: most_common_def min.commute)

lemma most_common_one:
  assumes "c \<noteq> []"
  shows "\<exists>e. most_common 1 c = [e] \<and> e \<in> set c \<and> (\<forall>e'\<in>set c. snd e' \<le> snd e)"
proof -
  let ?f = "\<lambda>kv :: 'a \<times> nat. - int (snd kv)"
  from assms have "sort_key ?f c \<noteq> []" by (metis length_sort length_0_conv)
  then obtain e es where s: "sort_key ?f c = e # es" by (cases "sort_key ?f c") auto
  have "sorted (map ?f (sort_key ?f c))" by (rule sorted_sort_key)
  with s have "\<forall>x\<in>set es. ?f e \<le> ?f x" by simp
  moreover have "set c = set (e # es)" using s by (metis set_sort)
  ultimately have "\<forall>e'\<in>set c. snd e' \<le> snd e" by auto
  moreover have "e \<in> set c" using \<open>set c = set (e # es)\<close> by simp
  moreover have "most_common 1 c = [e]" using s by (simp add: most_common_def)
  ultimately show ?thesis by blast
qed

lemma sorted_sort_Counter:
  "sorted_wrt (freq_before ws) (sort_key (\<lambda>kv. - int (snd kv)) (Counter ws))"
  using sorted_most_common [of ws "length (Counter ws)"] by (simp add: most_common_def)

lemma Counter_entries: "set (Counter ws) = (\<lambda>w. (w, count_list ws w)) ` set ws"
  by (simp add: Counter_counts set_first_seen)

lemma length_Counter: "length (Counter ws) = card (set ws)"
proof -
  have "length (Counter ws) = length (first_seen ws)" by (simp add: Counter_counts)
  also have "\<dots> = card (set (first_seen ws))"
    using distinct_first_seen by (rule distinct_card [symmetric])
  finally show ?thesis by (simp add: set_first_seen)
qed

lemma most_common_left_out:
  assumes "w \<in> set ws" and "w \<notin> fst ` set (most_common n (Counter ws))"
    and "kv \<in> set (most_common n (Counter ws))"
  shows "freq_before ws kv (w, count_list ws w)"
proof -
  let ?S = "sort_key (\<lambda>kv. - int (snd kv)) (Counter ws)"
  have "sorted_wrt (freq_before ws) (take n ?S @ drop n ?S)"
    using sorted_sort_Counter [of ws] by simp
  then have ord: "\<forall>a\<in>set (take n ?S). \<forall>b\<in>set (drop n ?S). freq_before ws a b"
    by (simp only: sorted_wrt_append) blast
  from assms(1) have "(w, count_list ws w) \<in> set (Counter ws)"
    by (simp add: Counter_entries)
  then have "(w, count_list ws w) \<in> set (take n ?S @ drop n ?S)" by simp
  then have "(w, count_list ws w) \<in> set (take n ?S) \<or> (w, count_list ws w) \<in> set (drop n ?S)"
    by (simp only: set_append Un_iff)
  moreover have "(w, count_list ws w) \<notin> set (take n ?S)"
    using assms(2) by (force simp: most_common_def)
  ultimately have "(w, count_list ws w) \<in> set (drop n ?S)" by blast
  with ord assms(3) show ?thesis by (simp add: most_common_def)
qed

lemma most_common_words:
  "kv \<in> set (most_common n (Counter ws)) \<Longrightarrow> fst kv \<in> set ws"
proof -
  assume "kv \<in> set (most_common n (Counter ws))"
  then have "kv \<in> set (sort_key (\<lambda>kv. - int (snd kv)) (Counter ws))"
    unfolding most_common_def by (rule in_set_takeD)
  then have "kv \<in> set (Counter ws)" by simp
  then show ?thesis by (auto simp: Counter_entries)
qed

section \<open>Properties of the loader\<close>

lemma zip_map_self: "zip xs (map f xs) = map (\<lambda>x. (x, f x)) xs"
  by (induction xs) simp_all

lemma astype_int16_map_option:
  "\<forall>x\<in>set xs. g x \<noteq> None \<Longrightarrow>
     astype_int16 (map (\<lambda>x. map_option f (g x)) xs) =
       Inr (map (\<lambda>x. word_of_int (f (the (g x)))) xs)"
proof (induction xs)
  case Nil
  show ?case by simp
next
  case (Cons x xs)
  then obtain z where "g x = Some z" by auto
  with Cons show ?case by simp
qed

lemma dated_props:
  assumes "rt \<in> set (dated pd rs)"
  shows "snd rt \<noteq> None" and "fst rt \<in> set rs" and "csv_title (fst rt) \<noteq> None"
    and "csv_publish_time (fst rt) \<noteq> None"
    and "rt \<in> set (convert_dates pd (dropna_title_time rs))"
proof -
  from assms show "snd rt \<noteq> None" by (simp add: dated_def dropna_time_def)
  from assms show c: "rt \<in> set (convert_dates pd (dropna_title_time rs))"
    by (simp add: dated_def dropna_time_def)
  then have "rt \<in> set (zip (dropna_title_time rs)
      (to_datetime pd (map csv_publish_time (dropna_title_time rs))))"
    by (simp add: convert_dates_def)
  then have "fst rt \<in> set (dropna_title_time rs)"
    by (metis set_zip_leftD prod.collapse)
  then show "fst rt \<in> set rs" and "csv_title (fst rt) \<noteq> None"
    and "csv_publish_time (fst rt) \<noteq> None"
    by (simp_all add: dropna_title_time_def)
qed

lemma year_column_dated:
  "year_column pd (dated pd rs) =
     Inr (map (\<lambda>rt. word_of_int (dt_year pd (the (snd rt)))) (dated pd rs))"
proof -
  have "\<forall>rt\<in>set (dated pd rs). snd rt \<noteq> None"
    by (simp add: dated_def dropna_time_def)
  then show ?thesis
    unfolding year_column_def by (rule astype_int16_map_option)
qed

lemma in_era_props:
  assumes "x \<in> set (in_era pd rs)"
  shows "fst x \<in> set (dated pd rs)" and "2019 \<le> sint (snd x)" and "sint (snd x) \<le> 2023"
    and "snd x = word_of_int (dt_year pd (the (snd (fst x))))"
  using assms by (auto simp: in_era_def covid_era_def)

lemma word_count_column_era:
  "word_count_column Object (map (\<lambda>x. csv_title (fst (fst x))) (in_era pd rs)) =
     Inr (map (\<lambda>x. word_of_int (int (length (py_split (the (csv_title (fst (fst x))))))))
       (in_era pd rs))"
proof -
  have nn: "\<forall>x\<in>set (in_era pd rs). csv_title (fst (fst x)) \<noteq> None"
  proof
    fix x assume "x \<in> set (in_era pd rs)"
    then have "fst x \<in> set (dated pd rs)" by (rule in_era_props)
    then show "csv_title (fst (fst x)) \<noteq> None" by (rule dated_props)
  qed
  have "word_count_column Object (map (\<lambda>x. csv_title (fst (fst x))) (in_era pd rs)) =
      astype_int16 (map (\<lambda>x. map_option (\<lambda>s. int (length (py_split s)))
        (csv_title (fst (fst x)))) (in_era pd rs))"
    by (simp add: word_count_column_def comp_def)
  also have "\<dots> =
      Inr (map (\<lambda>x. word_of_int (int (length (py_split (the (csv_title (fst (fst x))))))))
       (in_era pd rs))"
    using nn by (rule astype_int16_map_option)
  finally show ?thesis .
qed

lemma clean_frame_text:
  "title_dtype f = Object \<Longrightarrow>
   clean_frame pd f =
     Inr \<lparr>papers =
            map (\<lambda>x. make_paper
                  (x, word_of_int (int (length (py_split (the (csv_title (fst (fst x)))))))))
              (in_era pd (rows f)),
          journal_categories =
            set (dropna (map (\<lambda>x. csv_journal (fst (fst x))) (in_era pd (rows f))))\<rparr>"
  by (simp add: clean_frame_def dated_def [symmetric] year_column_dated
      in_era_def [symmetric] word_count_column_era zip_map_self comp_def Let_def)

lemma clean_frame_no_text:
  "title_dtype f \<noteq> Object \<Longrightarrow> clean_frame pd f = Inl AttributeError"
  by (simp add: clean_frame_def dated_def [symmetric] year_column_dated
      word_count_column_def Let_def)

lemma clean_frame_dtype: "clean_frame pd f = Inr fr \<Longrightarrow> title_dtype f = Object"
  using clean_frame_no_text [of f pd] by (cases "title_dtype f = Object") simp_all

lemma clean_frame_rows:
  assumes "clean_frame pd f = Inr fr" and "r \<in> set (papers fr)"
  shows "\<exists>c t ts. c \<in> set (rows f) \<and> csv_title c = Some t \<and> csv_publish_time c \<noteq> None \<and>
           (c, Some ts) \<in> set (convert_dates pd (dropna_title_time (rows f))) \<and>
           title r = Some t \<and> publish_time r = Some ts \<and>
           year r = word_of_int (dt_year pd ts) \<and>
           2019 \<le> sint (year r) \<and> sint (year r) \<le> 2023 \<and>
           title_word_count r = word_of_int (int (length (py_split t)))"
proof -
  from assms(1) have "title_dtype f = Object" by (rule clean_frame_dtype)
  with assms obtain x where x: "x \<in> set (in_era pd (rows f))"
    and r: "r = make_paper (x, word_of_int (int (length (py_split (the (csv_title (fst (fst x))))))))"
    by (auto simp: clean_frame_text)
  from x have d: "fst x \<in> set (dated pd (rows f))" and y: "2019 \<le> sint (snd x)" "sint (snd x) \<le> 2023"
    and yy: "snd x = word_of_int (dt_year pd (the (snd (fst x))))"
    by (rule in_era_props)+
  from d have p: "snd (fst x) \<noteq> None" "fst (fst x) \<in> set (rows f)" "csv_title (fst (fst x)) \<noteq> None"
    "csv_publish_time (fst (fst x)) \<noteq> None"
    "fst x \<in> set (convert_dates pd (dropna_title_time (rows f)))"
    by (rule dated_props)+
  from p(3) obtain t where t: "csv_title (fst (fst x)) = Some t" by auto
  from p(1) obtain ts where ts: "snd (fst x) = Some ts" by auto
  from p(5) ts have m: "(fst (fst x), Some ts) \<in> set (convert_dates pd (dropna_title_time (rows f)))"
    by (metis prod.collapse)
  show ?thesis
    using p y yy t ts m
    by (intro exI [of _ "fst (fst x)"] exI [of _ t] exI [of _ ts]) (simp add: r make_paper_def)
qed

lemma df_sample_rows:
  assumes "mset perm = mset [0..<length df]" and "n \<le> length df"
  shows "\<exists>s. df_sample perm n df = Inr s \<and> length s = n \<and> mset s \<subseteq># mset df"
proof -
  let ?all = "map (\<lambda>i. df ! i) perm"
  have "mset ?all = image_mset (\<lambda>i. df ! i) (mset [0..<length df])"
    using assms(1) by simp
  also have "\<dots> = mset (map (\<lambda>i. df ! i) [0..<length df])" by simp
  also have "\<dots> = mset df" by (simp only: map_nth)
  finally have all: "mset ?all = mset df" .
  have "mset (take n ?all) + mset (drop n ?all) = mset ?all"
    by (simp only: mset_append [symmetric] append_take_drop_id)
  then have "mset (take n ?all) \<subseteq># mset ?all"
    by (metis mset_subset_eq_add_left)
  then have sub: "mset (map (\<lambda>i. df ! i) (take n perm)) \<subseteq># mset df"
    by (simp only: all take_map)
  have "length perm = length df" using assms(1) by (metis size_mset length_upt diff_zero)
  then have "length (map (\<lambda>i. df ! i) (take n perm)) = n" using assms(2) by simp
  with sub show ?thesis using assms(2) by (simp add: df_sample_def)
qed

lemma load_frame_subset:
  assumes "permutes pd" and "clean_frame pd f = Inr cleaned" and "load_frame pd g f n = Inr fr"
  shows "mset (papers fr) \<subseteq># mset (papers cleaned) \<and>
         length (papers fr) = min n (length (papers cleaned)) \<and>
         journal_categories fr = journal_categories cleaned"
proof (cases "n < length (papers cleaned)")
  case True
  from assms(1) have "mset (permutation pd (Seeded 42) (length (papers cleaned))) =
      mset [0..<length (papers cleaned)]"
    by (simp add: permutes_def)
  with True obtain s where "df_sample (permutation pd (Seeded 42) (length (papers cleaned))) n
      (papers cleaned) = Inr s"
    and "length s = n" and "mset s \<subseteq># mset (papers cleaned)"
    using df_sample_rows [of "permutation pd (Seeded 42) (length (papers cleaned))" "papers cleaned" n]
    by auto
  with True assms(2,3) show ?thesis
    by (auto simp: load_frame_def sample_def)
next
  case False
  with assms(2,3) show ?thesis
    by (auto simp: load_frame_def)
qed



lemma load_frame_rows:
  assumes "permutes pd" and "load_frame pd g f n = Inr fr" and "r \<in> set (papers fr)"
  shows "\<exists>c t ts. c \<in> set (rows f) \<and> csv_title c = Some t \<and> csv_publish_time c \<noteq> None \<and>
           (c, Some ts) \<in> set (convert_dates pd (dropna_title_time (rows f))) \<and>
           title r = Some t \<and> publish_time r = Some ts \<and>
           year r = word_of_int (dt_year pd ts) \<and>
           2019 \<le> sint (year r) \<and> sint (year r) \<le> 2023 \<and>
           title_word_count r = word_of_int (int (length (py_split t)))"
proof -
  from assms(2) obtain cleaned where c: "clean_frame pd f = Inr cleaned"
    by (cases "clean_frame pd f") (simp_all add: load_frame_def)
  with assms have "mset (papers fr) \<subseteq># mset (papers cleaned)" using load_frame_subset by blast
  then have "set (papers fr) \<subseteq> set (papers cleaned)" by (metis set_mset_mono set_mset_mset)
  with assms(3) have "r \<in> set (papers cleaned)" by blast
  with c show ?thesis by (rule clean_frame_rows)
qed

lemmas loader_defs =
  load_data_def read_metadata_def read_csv_def load_frame_def clean_frame_def
  dropna_title_time_def convert_dates_def dropna_time_def year_column_def covid_era_def
  word_count_column_def make_paper_def small_pandas_def known_dates_def csv_entry_def
  cell_def text_file_def untitled_file_def use_cols_def loaded_def str_def is_space_def
  df_sample_def sample_def seed_42_def

lemma permutes_small_pandas: "permutes small_pandas"
proof -
  have "mset (permutation small_pandas r n) = mset [0..<n]" for r n
  proof (cases r)
    case (Ambient g)
    then show ?thesis by (simp add: small_pandas_def)
  next
    case (Seeded seed)
    have e: "[0..<2] = [0, 1]" "[0..<4] = [0, 1, 2, 3]" "[0..<5] = [0, 1, 2, 3, 4]"
      "[0..<6] = [0, 1, 2, 3, 4, 5]"
      by (simp_all add: upt_conv_Cons)
    have "mset [1, 0] = mset [0..<2]" "mset [1, 3, 0, 2] = mset [0..<4]"
      "mset [1, 4, 2, 0, 3] = mset [0..<5]" "mset [0, 1, 5, 2, 4, 3] = mset [0..<6]"
      unfolding e by simp_all
    with Seeded show ?thesis by (simp add: small_pandas_def seed_42_def)
  qed
  then show ?thesis by (simp add: permutes_def)
qed

lemma load_data_read:
  "load_data pd g fs n = Inr fr \<Longrightarrow>
     \<exists>f. read_metadata fs = Inr f \<and> load_frame pd g f n = Inr fr"
  by (cases "read_metadata fs") (simp_all add: load_data_def)

lemma sample_load:
  "load_data small_pandas g sample_files 50000 =
     Inr \<lparr>papers = [loaded ''Rapid COVID-19 Testing Methods'' (2020, 3, 15) ''Lancet'' 4],
          journal_categories = {str ''Lancet''}\<rparr>"
  by (simp add: loader_defs sample_files_def)

lemma full_load:
  "load_data small_pandas g full_files 50000 =
     Inr \<lparr>papers = [loaded ''Vaccine trial'' (2021, 6, 1) ''Nature'' 2],
          journal_categories = {str ''Nature''}\<rparr>"
  by (simp add: loader_defs full_files_def)


lemma untitled_load:
  "load_data small_pandas g untitled_files 50000 = Inl AttributeError"
  by (simp add: loader_defs untitled_files_def)

lemma four_clean: "clean_frame small_pandas four_lines = Inr four_cleaned"
  by (simp add: loader_defs four_lines_def four_cleaned_def insert_commute)

lemma four_load: "load_frame small_pandas g four_lines 2 = Inr two_sampled"
proof -
  have "sample small_pandas g (Some 42) 2 (papers four_cleaned) = Inr (papers two_sampled)"
    by (simp add: sample_def df_sample_def small_pandas_def seed_42_def four_cleaned_def
        two_sampled_def)
  then show ?thesis
    by (simp add: load_frame_def four_clean) (simp add: four_cleaned_def two_sampled_def)
qed

lemma token_starts_skip:
  "token_starts False cs = token_starts True (dropWhile (\<lambda>x. \<not> is_space x) cs)"
  by (induction cs) simp_all

lemma length_py_split: "length (py_split s) = whitespace_tokens s"
  unfolding whitespace_tokens_def
proof (induction s rule: py_split.induct)
  case 1
  show ?case by simp
next
  case (2 c cs)
  show ?case
  proof (cases "is_space c")
    case True
    with 2 show ?thesis by simp
  next
    case False
    with 2 have "length (py_split (dropWhile (\<lambda>x. \<not> is_space x) cs)) =
        token_starts True (dropWhile (\<lambda>x. \<not> is_space x) cs)" by simp
    with False show ?thesis by (simp add: token_starts_skip [of cs])
  qed
qed

lemma sint_int16: "0 \<le> x \<Longrightarrow> x < 32768 \<Longrightarrow> sint (word_of_int x :: 16 word) = x"
  by (simp add: int_word_sint)

lemma sint_nat16: "n < 32768 \<Longrightarrow> sint (word_of_nat n :: 16 word) = int n"
proof -
  assume "n < 32768"
  then have "sint (word_of_int (int n) :: 16 word) = int n"
    by (intro sint_int16) simp_all
  then show ?thesis by simp
qed

lemma py_split_letters: "py_split (concat (replicate n (str ''a ''))) = replicate n (str ''a'')"
  by (induction n) (simp_all add: is_space_def str_def)

lemma long_title_tokens: "whitespace_tokens long_title = 32768"
proof -
  have "length (py_split long_title) = 32768"
    unfolding long_title_def py_split_letters by simp
  then show ?thesis by (simp add: length_py_split)
qed

lemma long_title_load:
  "load_frame small_pandas g long_title_file 50000 =
     Inr \<lparr>papers =
            [\<lparr>title = Some long_title, publish_time = Some (2020, 3, 15),
              journal = cell ''Nature'', authors = None, year = 2020,
              title_word_count = - 32768\<rparr>],
          journal_categories = {str ''Nature''}\<rparr>"
proof -
  have l: "length (py_split long_title) = 32768"
    by (simp add: length_py_split long_title_tokens)
  show ?thesis
    by (simp add: load_frame_def clean_frame_def dropna_title_time_def convert_dates_def
        dropna_time_def year_column_def covid_era_def word_count_column_def make_paper_def
        small_pandas_def known_dates_def cell_def str_def long_title_file_def use_cols_def l)
qed






lemma cached_load_data_stored:
  "cached_load_data pd g c fs n = (Inr fr, c') \<Longrightarrow> c' n = Some fr"
  by (auto simp: cached_load_data_def split: option.splits sum.splits)


section \<open>Properties of the page\<close>

lemma fold_min_le: "fold min xs (x :: int) \<le> x \<and> (\<forall>y\<in>set xs. fold min xs x \<le> y)"
proof (induction xs arbitrary: x)
  case Nil
  show ?case by simp
next
  case (Cons a xs)
  from Cons [of "min a x"] show ?case by auto
qed

lemma fold_max_ge: "x \<le> fold max xs (x :: int) \<and> (\<forall>y\<in>set xs. y \<le> fold max xs x)"
proof (induction xs arbitrary: x)
  case Nil
  show ?case by simp
next
  case (Cons a xs)
  from Cons [of "max a x"] show ?case by auto
qed

lemma series_min_le: "series_min xs = Some lo \<Longrightarrow> y \<in> set xs \<Longrightarrow> lo \<le> y"
  using fold_min_le by (cases xs) auto

lemma series_max_ge: "series_max xs = Some hi \<Longrightarrow> y \<in> set xs \<Longrightarrow> y \<le> hi"
  using fold_max_ge by (cases xs) auto

lemma count_list_filter:
  "count_list (filter P xs) r = (if P r then count_list xs r else 0)"
  by (induction xs) auto

lemma filter_years_whole:
  assumes "series_min (years df) = Some lo" and "series_max (years df) = Some hi"
  shows "filter_years (lo, hi) df = df"
proof -
  have "\<forall>r\<in>set df. lo \<le> sint (year r) \<and> sint (year r) \<le> hi"
  proof
    fix r assume "r \<in> set df"
    then have "sint (year r) \<in> set (years df)" by (simp add: years_def)
    with assms show "lo \<le> sint (year r) \<and> sint (year r) \<le> hi"
      by (simp add: series_min_le series_max_ge)
  qed
  then show ?thesis by (simp add: filter_years_def)
qed

lemma render_empty:
  "render u pd g selection \<lparr>papers = [], journal_categories = categories\<rparr> = Inl ValueError"
  by (simp add: render_def years_def py_int_def)

lemma render_whole:
  assumes "render u pd g whole_range df = Inr p"
  shows "total_papers p = length (papers df)"
proof -
  from assms obtain a b where a: "series_min (years (papers df)) = Some a"
    and b: "series_max (years (papers df)) = Some b"
    by (cases "series_min (years (papers df))"; cases "series_max (years (papers df))")
       (simp_all add: render_def py_int_def)
  then have f: "filter_years (a, b) (papers df) = papers df"
    by (simp add: filter_years_whole)
  from assms a b show ?thesis
    by (auto simp: render_def py_int_def slider_def whole_range_def f Let_def
        split: sum.splits if_splits)
qed

lemma three_years:
  "series_min (years three_papers) = Some 2020" "series_max (years three_papers) = Some 2021"
  by (simp_all add: years_def three_papers_def loaded_def)

lemma three_words:
  "common_words u [Some (str ''First wave''), Some (str ''Second wave''),
       Some (str ''Vaccine trial'')] =
     [entry ''wave'' 2, entry ''first'' 1, entry ''second'' 1, entry ''vaccine'' 1,
      entry ''trial'' 1]"
  by code_simp

lemma three_sample:
  "sample small_pandas g None 3 three_papers = Inr (rev three_papers)"
  by (simp add: sample_def df_sample_def small_pandas_def three_papers_def
      upt_rec [of 0] upt_rec [of 1] upt_rec [of 2])

lemma three_render: "render u small_pandas g whole_range three_frame = Inr three_page"
proof -
  have f: "filter_years (2020, 2021) three_papers = three_papers"
    by (simp add: filter_years_whole three_years)
  have t: "map title three_papers =
      [Some (str ''First wave''), Some (str ''Second wave''), Some (str ''Vaccine trial'')]"
    by (simp add: three_papers_def loaded_def cell_def)
  have y: "yearly_counts three_papers = [(2020, 2), (2021, 1)]"
    by (simp add: yearly_counts_def years_def three_papers_def loaded_def)
  have l: "length three_papers = 3" by (simp add: three_papers_def)
  show ?thesis
    by (simp add: render_def three_frame_def three_years py_int_def slider_def whole_range_def
        f t y l three_words three_sample plot_journals_def three_page_def Let_def)
qed

lemma old_load:
  "load_data small_pandas g old_files 50000 = Inr \<lparr>papers = [], journal_categories = {}\<rparr>"
  by (simp add: loader_defs old_files_def)

text \<open>
  Claim C1, as amended. On every title the tokenizer yields, in order, the maximal runs of
  word characters (letters, digits, underscore; \<^verbatim>\<open>\w\<close>) of the lowercased title that have
  at least three characters and consist of the letters \<^verbatim>\<open>a-z\<close>, \<^verbatim>\<open>A-Z\<close> only, minus
  the stop words: a run of letters that touches a digit, an underscore or another word
  character is dropped whole, and nothing is merged across a character that is not a
  letter. The title "The New COVID-19 Study: Rapid Results!" yields new, covid, study,
  rapid, results; the title "CAFE Study" written with an acute accent on its capital E yields study
  alone.
\<close>

theorem title_words_word_runs:
  "title_words u t = filter (\<lambda>w. w \<notin> set stop_words) (word_tokens u (py_lower u t)) \<and>
   title_words u (str ''The New COVID-19 Study: Rapid Results!'') =
     map str [''new'', ''covid'', ''study'', ''rapid'', ''results''] \<and>
   title_words small_unicode (str ''CAF'' @ [201] @ str '' Study'') = [str ''study'']"
proof (intro conjI)
  show "title_words u t = filter (\<lambda>w. w \<notin> set stop_words) (word_tokens u (py_lower u t))"
    by (simp add: title_words_def findall_def findall_from_runs)
  show "title_words u (str ''The New COVID-19 Study: Rapid Results!'') =
     map str [''new'', ''covid'', ''study'', ''rapid'', ''results'']"
    by code_simp
  show "title_words small_unicode (str ''CAF'' @ [201] @ str '' Study'') = [str ''study'']"
    by code_simp
qed

text \<open>
  Claim C1 as stated fails: in "covid19" the letters "covid" are a maximal run of
  alphabetic characters of length five, and the tokenizer yields nothing, since no word
  boundary separates the letters from the digits.
\<close>

theorem title_words_not_alpha_runs:
  "title_words small_unicode (str ''covid19'') = [] \<and>
   spec_title_words small_unicode (str ''covid19'') = [str ''covid'']"
proof -
  have "title_words small_unicode (str ''covid19'') = []" by code_simp
  moreover have "spec_title_words small_unicode (str ''covid19'') = [str ''covid'']" by code_simp
  ultimately show ?thesis by simp
qed

text \<open>
  Claim C2. For every sequence of titles and every \<open>n\<close>, the top-\<open>n\<close> frequency table is
  the first \<open>n\<close> entries (all, where there are fewer words) of the list of the distinct
  words of the titles with their numbers of occurrences, ordered by falling count and,
  among equal counts, by the first occurrence of the word in the word sequence of the
  titles: the table is in that order, has no word twice, has \<open>min n d\<close> entries for
  \<open>d\<close> distinct words, every entry is a word of the titles with its count, and every
  word left out comes after every entry in the order. For the titles "cat dog cat" and
  "dog bird" the table is cat 2, dog 2, bird 1, cat before dog.
\<close>

theorem word_frequency_order:
  "sorted_wrt (freq_before (all_words u titles)) (top_words u n titles) \<and>
   distinct (map fst (top_words u n titles)) \<and>
   length (top_words u n titles) = min n (card (set (all_words u titles))) \<and>
   (\<forall>kv\<in>set (top_words u n titles).
      fst kv \<in> set (all_words u titles) \<and>
      snd kv = count_list (all_words u titles) (fst kv)) \<and>
   (\<forall>w\<in>set (all_words u titles). w \<notin> fst ` set (top_words u n titles) \<longrightarrow>
      (\<forall>kv\<in>set (top_words u n titles).
         freq_before (all_words u titles) kv (w, count_list (all_words u titles) w))) \<and>
   common_words u [Some (str ''cat dog cat''), Some (str ''dog bird'')] =
     [entry ''cat'' 2, entry ''dog'' 2, entry ''bird'' 1]"
proof (intro conjI)
  show "sorted_wrt (freq_before (all_words u titles)) (top_words u n titles)"
    by (simp only: top_words_eq sorted_most_common)
  show "distinct (map fst (top_words u n titles))"
    by (simp only: top_words_eq) (intro distinct_most_common distinct_Counter)
  show "length (top_words u n titles) = min n (card (set (all_words u titles)))"
    by (simp only: top_words_eq most_common_length length_Counter)
  show "\<forall>kv\<in>set (top_words u n titles).
      fst kv \<in> set (all_words u titles) \<and>
      snd kv = count_list (all_words u titles) (fst kv)"
    by (simp only: top_words_eq) (blast dest: most_common_counts most_common_words)
  show "\<forall>w\<in>set (all_words u titles). w \<notin> fst ` set (top_words u n titles) \<longrightarrow>
      (\<forall>kv\<in>set (top_words u n titles).
         freq_before (all_words u titles) kv (w, count_list (all_words u titles) w))"
    by (simp only: top_words_eq) (blast intro: most_common_left_out)
  show "common_words u [Some (str ''cat dog cat''), Some (str ''dog bird'')] =
     [entry ''cat'' 2, entry ''dog'' 2, entry ''bird'' 1]"
    by code_simp
qed

theorem word_frequency_order_witness:
  "get_word_frequency small_unicode [Some (str ''first wave''), None, Some (str ''second wave'')] =
     [entry ''first'' 1, entry ''wave'' 2, entry ''second'' 1] \<and>
   top_words small_unicode 2 [Some (str ''first wave''), None, Some (str ''second wave'')] =
     [entry ''wave'' 2, entry ''first'' 1] \<and>
   sorted_wrt
     (freq_before (all_words small_unicode [Some (str ''first wave''), None, Some (str ''second wave'')]))
     [entry ''wave'' 2, entry ''first'' 1] \<and>
   count_list (all_words small_unicode [Some (str ''first wave''), None, Some (str ''second wave'')])
     (str ''wave'') = 2 \<and>
   freq_before (all_words small_unicode [Some (str ''first wave''), None, Some (str ''second wave'')])
     (entry ''first'' 1)
     (str ''second'',
      count_list (all_words small_unicode [Some (str ''first wave''), None, Some (str ''second wave'')])
        (str ''second''))"
proof -
  let ?T = "[Some (str ''first wave''), None, Some (str ''second wave'')]"
  have c: "get_word_frequency small_unicode ?T =
      [entry ''first'' 1, entry ''wave'' 2, entry ''second'' 1]"
    by code_simp
  have v: "top_words small_unicode 2 ?T = [entry ''wave'' 2, entry ''first'' 1]"
    by code_simp
  have a: "all_words small_unicode ?T = map str [''first'', ''wave'', ''second'', ''wave'']"
    by code_simp
  have m: "str ''second'' \<in> set (all_words small_unicode ?T)"
    unfolding a by simp
  have n: "str ''second'' \<notin> fst ` set (top_words small_unicode 2 ?T)"
    unfolding v by code_simp
  note w = word_frequency_order [of small_unicode ?T 2]
  from w have 1: "sorted_wrt (freq_before (all_words small_unicode ?T)) (top_words small_unicode 2 ?T)"
    by blast
  from w have "\<forall>kv\<in>set (top_words small_unicode 2 ?T).
      snd kv = count_list (all_words small_unicode ?T) (fst kv)"
    by blast
  then have 2: "count_list (all_words small_unicode ?T) (str ''wave'') = 2"
    unfolding v by (simp add: entry_def)
  from w m n have "\<forall>kv\<in>set (top_words small_unicode 2 ?T).
      freq_before (all_words small_unicode ?T) kv
        (str ''second'', count_list (all_words small_unicode ?T) (str ''second''))"
    by blast
  then have 3: "freq_before (all_words small_unicode ?T) (entry ''first'' 1)
        (str ''second'', count_list (all_words small_unicode ?T) (str ''second''))"
    unfolding v by simp
  from c v 1 [unfolded v] 2 3 show ?thesis by blast
qed

text \<open>
  Claim C3 does not hold of the script. Where the title column of the file is text, the
  rows without a title, without a date that parses or with a year outside 2019--2023 are
  left out one by one, as in the second file below, and every row kept has a title and a
  year within the bound (lemma \<open>load_frame_rows\<close>). But a file in which no row has a
  title is read with a title column of numbers, on which \<^verbatim>\<open>.str\<close> in line 43 raises
  \<^verbatim>\<open>AttributeError\<close>: the load fails where its rows should be left out.
\<close>

theorem untitled_file_raises:
  "load_data small_pandas g untitled_files 50000 = Inl AttributeError \<and>
   load_data small_pandas g sample_files 50000 =
     Inr \<lparr>papers = [loaded ''Rapid COVID-19 Testing Methods'' (2020, 3, 15) ''Lancet'' 4],
          journal_categories = {str ''Lancet''}\<rparr>"
  using untitled_load sample_load by simp


text \<open>
  Claim C4, as amended. Every row of the loaded table carries the title of a row of the
  file unchanged, and its \<^verbatim>\<open>title_word_count\<close> is the number of white-space-delimited
  tokens of that title stored as an \<^verbatim>\<open>int16\<close>: it is the number itself for a title of
  fewer than 32768 tokens. The title "Rapid COVID-19 Testing Methods" has 4.
\<close>

theorem title_word_count_tokens:
  assumes "permutes pd" and "load_frame pd g f n = Inr fr" and "r \<in> set (papers fr)"
  shows "(\<exists>t c. title r = Some t \<and> c \<in> set (rows f) \<and> csv_title c = Some t \<and>
            title_word_count r = word_of_nat (whitespace_tokens t) \<and>
            (whitespace_tokens t < 32768 \<longrightarrow>
               sint (title_word_count r) = int (whitespace_tokens t))) \<and>
         whitespace_tokens (str ''Rapid COVID-19 Testing Methods'') = 4"
proof
  from load_frame_rows [OF assms] obtain c t where c: "c \<in> set (rows f)" "csv_title c = Some t"
    and t: "title r = Some t"
    and w: "title_word_count r = word_of_int (int (length (py_split t)))"
    by blast
  from w have w': "title_word_count r = word_of_nat (whitespace_tokens t)"
    by (simp add: length_py_split)
  have "whitespace_tokens t < 32768 \<Longrightarrow> sint (title_word_count r) = int (whitespace_tokens t)"
    using w' by (simp add: sint_nat16)
  with c t w' show "\<exists>t c. title r = Some t \<and> c \<in> set (rows f) \<and> csv_title c = Some t \<and>
            title_word_count r = word_of_nat (whitespace_tokens t) \<and>
            (whitespace_tokens t < 32768 \<longrightarrow>
               sint (title_word_count r) = int (whitespace_tokens t))"
    by blast
  show "whitespace_tokens (str ''Rapid COVID-19 Testing Methods'') = 4"
    by (simp add: whitespace_tokens_def is_space_def str_def)
qed

theorem title_word_count_tokens_witness:
  "permutes small_pandas \<and>
   load_frame small_pandas 0
     \<lparr>header = use_cols, title_dtype = Object,
      rows = [csv_entry ''Rapid COVID-19 Testing Methods'' ''2020-03-15'' ''Lancet'']\<rparr> 50000 =
     Inr \<lparr>papers = [loaded ''Rapid COVID-19 Testing Methods'' (2020, 3, 15) ''Lancet'' 4],
          journal_categories = {str ''Lancet''}\<rparr> \<and>
   whitespace_tokens (str ''Rapid COVID-19 Testing Methods'') < 32768 \<and>
   sint (4 :: 16 word) = int (whitespace_tokens (str ''Rapid COVID-19 Testing Methods''))"
proof -
  let ?f = "\<lparr>header = use_cols, title_dtype = Object,
      rows = [csv_entry ''Rapid COVID-19 Testing Methods'' ''2020-03-15'' ''Lancet'']\<rparr>"
  let ?r = "loaded ''Rapid COVID-19 Testing Methods'' (2020, 3, 15) ''Lancet'' 4"
  have l: "load_frame small_pandas 0 ?f 50000 =
      Inr \<lparr>papers = [?r], journal_categories = {str ''Lancet''}\<rparr>"
    by (simp add: loader_defs)
  have m: "?r \<in> set (papers \<lparr>papers = [?r], journal_categories = {str ''Lancet''}\<rparr>)" by simp
  have tr: "title ?r = Some (str ''Rapid COVID-19 Testing Methods'')"
    by (simp add: loaded_def cell_def)
  have wr: "title_word_count ?r = 4" by (simp add: loaded_def)
  from title_word_count_tokens [OF permutes_small_pandas l m]
  have k: "whitespace_tokens (str ''Rapid COVID-19 Testing Methods'') = 4"
    and "\<exists>t. title ?r = Some t \<and> (whitespace_tokens t < 32768 \<longrightarrow>
                  sint (title_word_count ?r) = int (whitespace_tokens t))"
    by blast+
  then have "sint (title_word_count ?r) = int (whitespace_tokens (str ''Rapid COVID-19 Testing Methods''))"
    unfolding tr by simp
  with permutes_small_pandas l k show ?thesis unfolding wr by simp
qed


text \<open>
  Claim C4 as stated fails on a title of 32768 tokens: the row is kept and its
  \<^verbatim>\<open>title_word_count\<close> is \<open>-32768\<close>.
\<close>

theorem title_word_count_wraps:
  "whitespace_tokens long_title = 32768 \<and>
   load_frame small_pandas 0 long_title_file 50000 =
     Inr \<lparr>papers =
            [\<lparr>title = Some long_title, publish_time = Some (2020, 3, 15),
              journal = cell ''Nature'', authors = None, year = 2020,
              title_word_count = - 32768\<rparr>],
          journal_categories = {str ''Nature''}\<rparr> \<and>
   sint (- 32768 :: 16 word) = - 32768"
proof -
  have "sint (- 32768 :: 16 word) = - 32768" by simp
  with long_title_tokens long_title_load [of 0] show ?thesis by simp
qed

text \<open>
  Claim C5. When the cleaned table has more rows than the sample size, the loader returns
  exactly that many rows, and they are rows of the cleaned table, none more often than
  the cleaned table has it. The draw is seeded with 42: the table that \<^verbatim>\<open>load_data\<close>
  returns is the same in two runs whatever the random state of the process is in each,
  and a second load through the cache returns the table of the first.
\<close>

theorem sample_cap_deterministic:
  assumes "permutes pd"
  shows "(clean_frame pd f = Inr cleaned \<and> n < length (papers cleaned) \<longrightarrow>
            (\<exists>fr. load_frame pd g f n = Inr fr \<and> length (papers fr) = n \<and>
                  mset (papers fr) \<subseteq># mset (papers cleaned))) \<and>
         load_data pd g fs n = load_data pd g' fs n \<and>
         (cached_load_data pd g c fs n = (Inr fr1, c1) \<longrightarrow>
            cached_load_data pd g' c1 fs' n = (Inr fr1, c1))"
proof (intro conjI impI)
  assume h: "clean_frame pd f = Inr cleaned \<and> n < length (papers cleaned)"
  then obtain fr where l: "load_frame pd g f n = Inr fr"
    by (auto simp: load_frame_def sample_def df_sample_def)
  from load_frame_subset [OF assms _ l] h
  have "mset (papers fr) \<subseteq># mset (papers cleaned)" and "length (papers fr) = n"
    by simp_all
  with l show "\<exists>fr. load_frame pd g f n = Inr fr \<and> length (papers fr) = n \<and>
                  mset (papers fr) \<subseteq># mset (papers cleaned)"
    by blast
next
  have "load_frame pd g x n = load_frame pd g' x n" for x
    by (cases "clean_frame pd x") (simp_all add: load_frame_def sample_def)
  then show "load_data pd g fs n = load_data pd g' fs n"
    by (cases "read_metadata fs") (simp_all add: load_data_def)
next
  assume "cached_load_data pd g c fs n = (Inr fr1, c1)"
  then have "c1 n = Some fr1" by (rule cached_load_data_stored)
  then show "cached_load_data pd g' c1 fs' n = (Inr fr1, c1)"
    by (simp add: cached_load_data_def)
qed

theorem sample_cap_deterministic_witness:
  "permutes small_pandas \<and>
   clean_frame small_pandas four_lines = Inr four_cleaned \<and>
   2 < length (papers four_cleaned) \<and>
   load_frame small_pandas 0 four_lines 2 = Inr two_sampled \<and>
   length (papers two_sampled) = 2 \<and>
   mset (papers two_sampled) \<subseteq># mset (papers four_cleaned) \<and>
   cached_load_data small_pandas 0 Map.empty [''metadata.csv'' \<mapsto> Csv four_lines] 2 =
     (Inr two_sampled, [2 \<mapsto> two_sampled]) \<and>
   cached_load_data small_pandas 1 [2 \<mapsto> two_sampled] Map.empty 2 =
     (Inr two_sampled, [2 \<mapsto> two_sampled])"
proof -
  have lt: "2 < length (papers four_cleaned)" by (simp add: four_cleaned_def)
  from sample_cap_deterministic [OF permutes_small_pandas, of four_lines four_cleaned 2 0]
    four_clean lt
  obtain fr where "load_frame small_pandas 0 four_lines 2 = Inr fr"
    and "length (papers fr) = 2" and "mset (papers fr) \<subseteq># mset (papers four_cleaned)"
    by blast
  with four_load [of 0] have l: "length (papers two_sampled) = 2"
    and m: "mset (papers two_sampled) \<subseteq># mset (papers four_cleaned)"
    by simp_all
  have c1: "cached_load_data small_pandas 0 Map.empty [''metadata.csv'' \<mapsto> Csv four_lines] 2 =
      (Inr two_sampled, [2 \<mapsto> two_sampled])"
    by (simp add: cached_load_data_def load_data_def read_metadata_def read_csv_def
        four_load four_lines_def [symmetric])
       (simp add: four_lines_def four_load [unfolded four_lines_def])
  from sample_cap_deterministic [OF permutes_small_pandas, of _ _ 2 0
      "[''metadata.csv'' \<mapsto> Csv four_lines]" 1 Map.empty two_sampled
      "[2 \<mapsto> two_sampled]" Map.empty] c1
  have c2: "cached_load_data small_pandas 1 [2 \<mapsto> two_sampled] Map.empty 2 =
      (Inr two_sampled, [2 \<mapsto> two_sampled])"
    by blast
  from permutes_small_pandas four_clean lt four_load [of 0] l m c1 c2 show ?thesis by blast
qed

text \<open>
  Claim C6. The year filter keeps exactly the rows of the table whose year lies between
  the two bounds, both included, each as often as the table has it; with the smallest and
  the largest year of the table as bounds it returns the table itself, and so a page
  shown with the slider on its whole range counts every row of the table.
\<close>

theorem filter_years_inclusive:
  "(r \<in> set (filter_years (lo, hi) df) \<longleftrightarrow>
      r \<in> set df \<and> lo \<le> sint (year r) \<and> sint (year r) \<le> hi) \<and>
   count_list (filter_years (lo, hi) df) r =
     (if lo \<le> sint (year r) \<and> sint (year r) \<le> hi then count_list df r else 0) \<and>
   (series_min (years df) = Some lo \<and> series_max (years df) = Some hi \<longrightarrow>
      filter_years (lo, hi) df = df) \<and>
   (render u pd g whole_range fr = Inr p \<longrightarrow> total_papers p = length (papers fr))"
proof (intro conjI impI)
  show "r \<in> set (filter_years (lo, hi) df) \<longleftrightarrow>
      r \<in> set df \<and> lo \<le> sint (year r) \<and> sint (year r) \<le> hi"
    by (simp add: filter_years_def)
  show "count_list (filter_years (lo, hi) df) r =
     (if lo \<le> sint (year r) \<and> sint (year r) \<le> hi then count_list df r else 0)"
    by (simp add: filter_years_def count_list_filter)
next
  assume "series_min (years df) = Some lo \<and> series_max (years df) = Some hi"
  then show "filter_years (lo, hi) df = df" by (simp add: filter_years_whole)
next
  assume "render u pd g whole_range fr = Inr p"
  then show "total_papers p = length (papers fr)" by (rule render_whole)
qed

theorem filter_years_inclusive_witness:
  "series_min (years three_papers) = Some 2020 \<and>
   series_max (years three_papers) = Some 2021 \<and>
   filter_years (2020, 2021) three_papers = three_papers \<and>
   filter_years (2021, 2021) three_papers = [loaded ''Vaccine trial'' (2021, 6, 1) ''Nature'' 2] \<and>
   render small_unicode small_pandas 7 whole_range three_frame = Inr three_page \<and>
   total_papers three_page = length (papers three_frame)"
proof -
  from filter_years_inclusive [of _ 2020 2021 three_papers] three_years
  have "filter_years (2020, 2021) three_papers = three_papers" by blast
  moreover have "filter_years (2021, 2021) three_papers =
      [loaded ''Vaccine trial'' (2021, 6, 1) ''Nature'' 2]"
    by (simp add: filter_years_def three_papers_def loaded_def)
  moreover from filter_years_inclusive
      [of _ _ _ three_papers small_unicode small_pandas 7 three_frame three_page] three_render
  have "total_papers three_page = length (papers three_frame)" by blast
  ultimately show ?thesis using three_years three_render by simp
qed

text \<open>
  Claim C7. For every \<open>n\<close> and every frequency table, \<^verbatim>\<open>most_common(n)\<close> returns at most
  \<open>n\<close> entries, and so does the top-\<open>n\<close> table of any titles; the top 1 of a table of
  five distinct words is exactly one entry of the table, and no entry of the table has a
  larger count.
\<close>

theorem most_common_truncates:
  "length (most_common n c) \<le> n \<and>
   length (top_words u n titles) \<le> n \<and>
   (distinct (map fst c) \<and> length c = 5 \<longrightarrow>
      (\<exists>e. py_dict (most_common 1 c) = [e] \<and> e \<in> set c \<and> (\<forall>e'\<in>set c. snd e' \<le> snd e)))"
proof (intro conjI impI)
  show "length (most_common n c) \<le> n"
    by (simp add: most_common_length)
  show "length (top_words u n titles) \<le> n"
    by (simp add: top_words_eq most_common_length)
next
  assume h: "distinct (map fst c) \<and> length c = 5"
  then have "c \<noteq> []" by auto
  then obtain e where e: "most_common 1 c = [e]" "e \<in> set c" "\<forall>e'\<in>set c. snd e' \<le> snd e"
    using most_common_one by blast
  from e(1) have "py_dict (most_common 1 c) = [e]"
    by (simp add: py_dict_def)
  with e show "\<exists>e. py_dict (most_common 1 c) = [e] \<and> e \<in> set c \<and> (\<forall>e'\<in>set c. snd e' \<le> snd e)"
    by blast
qed

theorem most_common_truncates_witness:
  "distinct (map fst [entry ''virus'' 1, entry ''covid'' 3, entry ''study'' 2, entry ''sars'' 3,
      entry ''lung'' 1]) \<and>
   length [entry ''virus'' 1, entry ''covid'' 3, entry ''study'' 2, entry ''sars'' 3,
      entry ''lung'' 1] = 5 \<and>
   py_dict (most_common 1 [entry ''virus'' 1, entry ''covid'' 3, entry ''study'' 2,
      entry ''sars'' 3, entry ''lung'' 1]) = [entry ''covid'' 3] \<and>
   (\<exists>e. py_dict (most_common 1 [entry ''virus'' 1, entry ''covid'' 3, entry ''study'' 2,
          entry ''sars'' 3, entry ''lung'' 1]) = [e] \<and>
        e \<in> set [entry ''virus'' 1, entry ''covid'' 3, entry ''study'' 2, entry ''sars'' 3,
          entry ''lung'' 1] \<and>
        snd (entry ''sars'' 3) \<le> snd e)"
proof -
  let ?c = "[entry ''virus'' 1, entry ''covid'' 3, entry ''study'' 2, entry ''sars'' 3,
      entry ''lung'' 1]"
  have d: "distinct (map fst ?c)" by code_simp
  have l: "length ?c = 5" by simp
  have v: "py_dict (most_common 1 ?c) = [entry ''covid'' 3]" by code_simp
  from most_common_truncates [of 1 ?c small_unicode "[]"] d l
  obtain e where e: "py_dict (most_common 1 ?c) = [e]" "e \<in> set ?c" "\<forall>e'\<in>set ?c. snd e' \<le> snd e"
    by blast
  from e(3) have "snd (entry ''sars'' 3) \<le> snd e" by simp
  with e(1,2) d l v show ?thesis by blast
qed

text \<open>
  Claim C8 does not hold of the script. A file whose rows all lie outside 2019--2023 loads
  as an empty table, and on an empty table the run raises \<^verbatim>\<open>ValueError\<close> at the bounds of
  the slider (\<^verbatim>\<open>int\<close> of the \<^verbatim>\<open>NaN\<close> that the minimum of an empty column is), before
  any metric is shown, whatever the library, the random state and the selection are.
\<close>

theorem empty_table_raises:
  "load_data small_pandas g old_files 50000 = Inr \<lparr>papers = [], journal_categories = {}\<rparr> \<and>
   render u pd g selection \<lparr>papers = [], journal_categories = categories\<rparr> = Inl ValueError \<and>
   fst (run_script u small_pandas g Map.empty old_files selection) = Inl ValueError"
proof -
  have "fst (run_script u small_pandas g Map.empty old_files selection) = Inl ValueError"
    by (simp add: run_script_def cached_load_data_def old_load render_empty)
  with old_load render_empty show ?thesis by simp
qed






text \<open>
  Claim C10. The sample of the page asks for \<open>min 10 n\<close> rows of a table of \<open>n\<close> rows,
  which is never more than \<open>n\<close>: for every table, the empty one included, the sampling
  step returns rows and does not raise, and what it returns are \<open>min 10 n\<close> rows of the
  table, none more often than the table has it.
\<close>

theorem sample_request_fits:
  "min 10 (length df) \<le> length df \<and>
   sample pd g None (min 10 (length df)) df =
     Inr (map (\<lambda>i. df ! i) (take (min 10 (length df)) (permutation pd (Ambient g) (length df)))) \<and>
   sample pd g None (min 10 0) ([] :: 'a list) = Inr [] \<and>
   (permutes pd \<longrightarrow>
      (\<exists>shown. sample pd g None (min 10 (length df)) df = Inr shown \<and>
         length shown = min 10 (length df) \<and> set shown \<subseteq> set df \<and>
         mset shown \<subseteq># mset df))"
proof (intro conjI impI)
  show "min 10 (length df) \<le> length df" by simp
  show "sample pd g None (min 10 (length df)) df =
     Inr (map (\<lambda>i. df ! i) (take (min 10 (length df)) (permutation pd (Ambient g) (length df))))"
    by (simp add: sample_def df_sample_def)
  show "sample pd g None (min 10 0) ([] :: 'a list) = Inr []"
    by (simp add: sample_def df_sample_def)
next
  assume "permutes pd"
  then have "mset (permutation pd (Ambient g) (length df)) = mset [0..<length df]"
    by (simp add: permutes_def)
  from df_sample_rows [OF this, of "min 10 (length df)"]
  obtain s where s: "df_sample (permutation pd (Ambient g) (length df)) (min 10 (length df)) df = Inr s"
    "length s = min 10 (length df)" "mset s \<subseteq># mset df"
    by auto
  from s(3) have "set s \<subseteq> set df" by (metis set_mset_mono set_mset_mset)
  with s show "\<exists>shown. sample pd g None (min 10 (length df)) df = Inr shown \<and>
         length shown = min 10 (length df) \<and> set shown \<subseteq> set df \<and> mset shown \<subseteq># mset df"
    by (simp add: sample_def)
qed

theorem sample_request_fits_witness:
  "permutes small_pandas \<and>
   sample small_pandas 7 None (min 10 (length three_papers)) three_papers =
     Inr (rev three_papers) \<and>
   length (rev three_papers) = min 10 (length three_papers) \<and>
   set (rev three_papers) \<subseteq> set three_papers \<and>
   mset (rev three_papers) \<subseteq># mset three_papers"
proof -
  from sample_request_fits [of three_papers small_pandas 7] permutes_small_pandas
  obtain shown where r: "sample small_pandas 7 None (min 10 (length three_papers)) three_papers =
      Inr shown"
    and l: "length shown = min 10 (length three_papers)"
    and s: "set shown \<subseteq> set three_papers" "mset shown \<subseteq># mset three_papers"
    by blast
  have "min 10 (length three_papers) = 3" by (simp add: three_papers_def)
  with three_sample [of 7]
  have "sample small_pandas 7 None (min 10 (length three_papers)) three_papers =
      Inr (rev three_papers)"
    by simp
  with r have "shown = rev three_papers" by simp
  with r l s permutes_small_pandas show ?thesis by simp
qed

end
